theory Spec2Isabelle
  imports Complex_Main
begin

section \<open>Python values used by the scheduler\<close>

text \<open>
  Exceptions raised by the modelled code are values. Every function that can raise
  returns \<open>py_error + 'a\<close>, with \<open>Inl\<close> for the exception.
\<close>

datatype py_error = ValueError | ZeroDivisionError | OverflowError | RuntimeError

datatype py_value = PyInt int | PyBool bool | PyStr string

subsection \<open>datetime and timedelta\<close>

text \<open>
  A \<open>datetime\<close> is the number of microseconds since midnight of proleptic Gregorian
  ordinal 0 (the day before 0001-01-01), so that \<open>toordinal\<close> is a division. A
  \<open>timedelta\<close> is a number of microseconds. Python's range checks are written out:
  a datetime lies between ordinal 1 and ordinal 3652059 (9999-12-31), a timedelta has at
  most 999999999 days.
\<close>

type_synonym datetime = int
type_synonym timedelta = int

definition us_per_minute :: int where
  "us_per_minute = 60000000"

definition us_per_hour :: int where
  "us_per_hour = 3600000000"

definition us_per_day :: int where
  "us_per_day = 86400000000"

definition MAXORDINAL :: int where
  "MAXORDINAL = 3652059"

definition toordinal :: "datetime \<Rightarrow> int" where
  "toordinal t = t div us_per_day"

text \<open>\<open>datetime.weekday()\<close>: Monday is 0, Sunday is 6.\<close>

definition weekday :: "datetime \<Rightarrow> int" where
  "weekday t = (toordinal t + 6) mod 7"

definition timedelta_days :: "int \<Rightarrow> py_error + timedelta" where
  "timedelta_days n =
     (if - 999999999 \<le> n \<and> n \<le> 999999999 then Inr (n * us_per_day) else Inl OverflowError)"

definition timedelta_minutes :: "int \<Rightarrow> py_error + timedelta" where
  "timedelta_minutes n =
     (if - 999999999 \<le> n div 1440 \<and> n div 1440 \<le> 999999999
      then Inr (n * us_per_minute) else Inl OverflowError)"

text \<open>\<open>datetime + timedelta\<close> raises OverflowError when the date leaves the range.\<close>

definition dt_add :: "datetime \<Rightarrow> timedelta \<Rightarrow> py_error + datetime" where
  "dt_add t d =
     (if 1 \<le> toordinal (t + d) \<and> toordinal (t + d) \<le> MAXORDINAL
      then Inr (t + d) else Inl OverflowError)"

text \<open>\<open>t.replace(hour=0, minute=0, second=0, microsecond=0)\<close>\<close>

definition replace_midnight :: "datetime \<Rightarrow> datetime" where
  "replace_midnight t = toordinal t * us_per_day"

text \<open>\<open>t.replace(hour=h, minute=m)\<close>: the date, the second and the microsecond stay.\<close>

definition replace_hour_minute :: "datetime \<Rightarrow> int \<Rightarrow> int \<Rightarrow> py_error + datetime" where
  "replace_hour_minute t h m =
     (if 0 \<le> h \<and> h \<le> 23 \<and> 0 \<le> m \<and> m \<le> 59
      then Inr (toordinal t * us_per_day + h * us_per_hour + m * us_per_minute
                + t mod us_per_minute)
      else Inl ValueError)"

subsection \<open>Strings: split, strip, int\<close>

text \<open>
  HOL strings are byte strings, so the whitespace and the digits below are the ASCII
  ones. \<open>str.strip\<close> removes what \<open>str.isspace\<close> accepts, below 128 the
  characters 9 to 13, 28 to 31 and 32; \<open>int\<close> of an ASCII string skips only what
  C's \<open>isspace\<close> accepts, the characters 9 to 13 and 32. Non-ASCII whitespace and
  digits are outside the model, and so is the interpreter's limit on the number of
  digits \<open>int\<close> converts.
\<close>

definition py_isspace :: "char \<Rightarrow> bool" where
  "py_isspace c =
     (let n = of_char c :: nat in (9 \<le> n \<and> n \<le> 13) \<or> (28 \<le> n \<and> n \<le> 32))"

definition py_strip :: "string \<Rightarrow> string" where
  "py_strip s = rev (dropWhile py_isspace (rev (dropWhile py_isspace s)))"

definition c_isspace :: "char \<Rightarrow> bool" where
  "c_isspace c = (let n = of_char c :: nat in (9 \<le> n \<and> n \<le> 13) \<or> n = 32)"

definition int_strip :: "string \<Rightarrow> string" where
  "int_strip s = rev (dropWhile c_isspace (rev (dropWhile c_isspace s)))"

text \<open>\<open>s.split(sep)\<close> for a one-character separator: never an empty list.\<close>

fun py_split :: "char \<Rightarrow> string \<Rightarrow> string list" where
  "py_split sep [] = [[]]"
| "py_split sep (c # cs) =
     (if c = sep then [] # py_split sep cs
      else (case py_split sep cs of
              [] \<Rightarrow> [[c]]
            | p # ps \<Rightarrow> (c # p) # ps))"

definition is_digit :: "char \<Rightarrow> bool" where
  "is_digit c = (let n = of_char c :: nat in 48 \<le> n \<and> n \<le> 57)"

definition digit_val :: "char \<Rightarrow> int" where
  "digit_val c = int (of_char c) - 48"

text \<open>
  The digits of a base-10 literal, an underscore allowed only between two digits.
  \<open>prev_digit\<close> says whether the character before was a digit; \<open>acc\<close> is the value
  read so far.
\<close>

fun py_digits :: "bool \<Rightarrow> int \<Rightarrow> string \<Rightarrow> int option" where
  "py_digits prev_digit acc [] = (if prev_digit then Some acc else None)"
| "py_digits prev_digit acc (c # cs) =
     (if is_digit c then py_digits True (acc * 10 + digit_val c) cs
      else if c = CHR ''_'' \<and> prev_digit \<and> cs \<noteq> [] \<and> is_digit (hd cs)
           then py_digits False acc cs
      else None)"

text \<open>\<open>int(s)\<close> for a string: surrounding whitespace, an optional sign, digits.\<close>

definition py_int :: "string \<Rightarrow> py_error + int" where
  "py_int s =
     (case int_strip s of
        [] \<Rightarrow> Inl ValueError
      | c # cs \<Rightarrow>
          if c = CHR ''-'' then
            (case py_digits False 0 cs of None \<Rightarrow> Inl ValueError | Some n \<Rightarrow> Inr (- n))
          else if c = CHR ''+'' then
            (case py_digits False 0 cs of None \<Rightarrow> Inl ValueError | Some n \<Rightarrow> Inr n)
          else
            (case py_digits False 0 (c # cs) of None \<Rightarrow> Inl ValueError | Some n \<Rightarrow> Inr n))"

text \<open>
  \<open>xs[i:j]\<close>: a negative index counts from the end, and both ends are clipped to the
  list.
\<close>

definition py_clip :: "nat \<Rightarrow> int \<Rightarrow> nat" where
  "py_clip n k = (if k < 0 then nat (max 0 (int n + k)) else min (nat k) n)"

definition py_slice :: "'a list \<Rightarrow> int \<Rightarrow> int \<Rightarrow> 'a list" where
  "py_slice xs i j =
     take (py_clip (length xs) j - py_clip (length xs) i) (drop (py_clip (length xs) i) xs)"

section \<open>The data model of \<open>core/scheduler_manager.py\<close>\<close>

text \<open>
  \<open>metadata\<close> is a dictionary with string keys; insertion order is kept, so it is an
  association list.
\<close>

record email_batch =
  batch_id :: string
  emails :: "string list"
  subject :: string
  body :: string
  attachments :: "string list"
  scheduled_time :: datetime
  status :: string
  created_time :: "datetime option"
  sent_time :: "datetime option"
  attempts :: int
  error_message :: "string option"
  metadata :: "(string \<times> py_value) list"

record schedule_settings =
  emails_per_day :: int
  emails_per_batch :: int
  start_time :: string
  end_time :: string
  working_days_only :: bool
  batch_interval_minutes :: int
  retry_failed_batches :: bool
  max_retry_attempts :: int
  retry_delay_hours :: int

section \<open>The planner: \<open>_get_next_working_day\<close> and \<open>_generate_batches\<close>\<close>

text \<open>
  The weekend loop of \<open>_get_next_working_day\<close>. It ends because the date grows and
  \<open>datetime\<close> addition raises beyond the last day.
\<close>

function skip_weekend :: "datetime \<Rightarrow> py_error + datetime" where
  "skip_weekend next_day =
     (if weekday next_day \<ge> 5 then
        (case timedelta_days 1 of
           Inl e \<Rightarrow> Inl e
         | Inr d \<Rightarrow>
             (case dt_add next_day d of
                Inl e \<Rightarrow> Inl e
              | Inr next_day' \<Rightarrow> skip_weekend next_day'))
      else Inr next_day)"
  by pat_completeness auto
termination
proof (relation "measure (\<lambda>t. nat (MAXORDINAL - toordinal t))")
  show "wf (measure (\<lambda>t. nat (MAXORDINAL - toordinal t)))" by simp
next
  fix next_day d next_day'
  assume "timedelta_days 1 = Inr d" and "dt_add next_day d = Inr next_day'"
  then have "next_day' = next_day + us_per_day" and "toordinal next_day' \<le> MAXORDINAL"
    by (auto simp: timedelta_days_def dt_add_def split: if_splits)
  then show "(next_day', next_day) \<in> measure (\<lambda>t. nat (MAXORDINAL - toordinal t))"
    by (simp add: toordinal_def us_per_day_def)
qed

declare skip_weekend.simps [simp del]

text \<open>\<open>now\<close> is the value of \<open>datetime.now()\<close>.\<close>

definition get_next_working_day :: "datetime \<Rightarrow> py_error + datetime" where
  "get_next_working_day now =
     (case timedelta_days 1 of
        Inl e \<Rightarrow> Inl e
      | Inr d \<Rightarrow>
          (case dt_add (replace_midnight now) d of
             Inl e \<Rightarrow> Inl e
           | Inr next_day \<Rightarrow> skip_weekend next_day))"

text \<open>
  \<open>start_hour, start_minute = map(int, settings.start_time.split(':'))\<close>: every part
  is converted, and the unpacking raises ValueError unless there are exactly two.
\<close>

definition parse_start_time :: "string \<Rightarrow> py_error + (int \<times> int)" where
  "parse_start_time s =
     (case py_split CHR '':'' s of
        [a, b] \<Rightarrow>
          (case py_int a of
             Inl e \<Rightarrow> Inl e
           | Inr h \<Rightarrow> (case py_int b of Inl e \<Rightarrow> Inl e | Inr m \<Rightarrow> Inr (h, m)))
      | _ \<Rightarrow> Inl ValueError)"

text \<open>
  The recipients already assigned to the day of \<open>current_date\<close>: the list comprehension
  in the condition of the inner loop.
\<close>

definition emails_on_day :: "email_batch list \<Rightarrow> datetime \<Rightarrow> string list" where
  "emails_on_day batches current_date =
     concat (map emails
       (filter (\<lambda>batch. toordinal (scheduled_time batch) = toordinal current_date) batches))"

text \<open>
  The \<open>EmailBatch(...)\<close> built in the inner loop. \<open>uid\<close> is the value of
  \<open>str(uuid.uuid4())\<close> and \<open>now\<close> the value of \<open>datetime.now()\<close>.
\<close>

definition new_batch ::
  "string \<Rightarrow> datetime \<Rightarrow> string list \<Rightarrow> string \<Rightarrow> string \<Rightarrow> string list \<Rightarrow> datetime
     \<Rightarrow> int \<Rightarrow> int \<Rightarrow> email_batch" where
  "new_batch uid now batch_emails subj bdy atts current_time daily_batches max_daily_batches =
     \<lparr> batch_id = uid,
       emails = batch_emails,
       subject = subj,
       body = bdy,
       attachments = atts,
       scheduled_time = current_time,
       status = ''pending'',
       created_time = Some now,
       sent_time = None,
       attempts = 0,
       error_message = None,
       metadata = [(''day_batch_number'', PyInt (daily_batches + 1)),
                   (''total_day_batches'', PyInt max_daily_batches),
                   (''emails_in_batch'', PyInt (int (length batch_emails)))] \<rparr>"

text \<open>
  The inner \<open>while\<close> of \<open>_generate_batches\<close>: the batches of one day. \<open>uuid k\<close> is
  the identifier drawn for the batch created when \<open>k\<close> batches exist. The loop returns
  the two variables the outer loop reads afterwards.
\<close>

function day_loop ::
  "(nat \<Rightarrow> string) \<Rightarrow> datetime \<Rightarrow> string list \<Rightarrow> string \<Rightarrow> string \<Rightarrow> string list
     \<Rightarrow> schedule_settings \<Rightarrow> datetime \<Rightarrow> int
     \<Rightarrow> email_batch list \<Rightarrow> nat \<Rightarrow> int \<Rightarrow> datetime
     \<Rightarrow> py_error + (email_batch list \<times> nat)" where
  "day_loop uuid now es subj bdy atts settings current_date max_daily_batches
       batches email_index daily_batches current_time =
     (if email_index < length es \<and> daily_batches < max_daily_batches
         \<and> int (length (emails_on_day batches current_date)) < emails_per_day settings
      then
        (let batch_emails =
               py_slice es (int email_index) (int email_index + emails_per_batch settings);
             batch = new_batch (uuid (length batches)) now batch_emails subj bdy atts
                       current_time daily_batches max_daily_batches
         in (case timedelta_minutes (batch_interval_minutes settings) of
               Inl e \<Rightarrow> Inl e
             | Inr d \<Rightarrow>
                 (case dt_add current_time d of
                    Inl e \<Rightarrow> Inl e
                  | Inr current_time' \<Rightarrow>
                      day_loop uuid now es subj bdy atts settings current_date
                        max_daily_batches (batches @ [batch])
                        (email_index + length batch_emails) (daily_batches + 1)
                        current_time')))
      else Inr (batches, email_index))"
  by pat_completeness auto
termination
  by (relation "measure (\<lambda>(uuid, now, es, subj, bdy, atts, settings, current_date,
          max_daily_batches, batches, email_index, daily_batches, current_time).
          nat (max_daily_batches - daily_batches))") auto

declare day_loop.simps [simp del]

text \<open>
  The outer \<open>while\<close> of \<open>_generate_batches\<close>. The date grows in every iteration, and
  the addition raises OverflowError after 9999-12-31, which is how the source leaves
  the loop when no batch can be created.
\<close>

function generate_loop ::
  "(nat \<Rightarrow> string) \<Rightarrow> datetime \<Rightarrow> string list \<Rightarrow> string \<Rightarrow> string \<Rightarrow> string list
     \<Rightarrow> schedule_settings \<Rightarrow> int \<Rightarrow> int
     \<Rightarrow> email_batch list \<Rightarrow> nat \<Rightarrow> datetime
     \<Rightarrow> py_error + email_batch list" where
  "generate_loop uuid now es subj bdy atts settings start_hour start_minute
       batches email_index current_date =
     (if email_index < length es then
        (if working_days_only settings \<and> weekday current_date \<ge> 5 then
           (case timedelta_days 1 of
              Inl e \<Rightarrow> Inl e
            | Inr d \<Rightarrow>
                (case dt_add current_date d of
                   Inl e \<Rightarrow> Inl e
                 | Inr current_date' \<Rightarrow>
                     generate_loop uuid now es subj bdy atts settings start_hour start_minute
                       batches email_index current_date'))
         else if emails_per_batch settings = 0 then Inl ZeroDivisionError
         else
           (case replace_hour_minute current_date start_hour start_minute of
              Inl e \<Rightarrow> Inl e
            | Inr current_time \<Rightarrow>
                (case day_loop uuid now es subj bdy atts settings current_date
                        (emails_per_day settings div emails_per_batch settings)
                        batches email_index 0 current_time of
                   Inl e \<Rightarrow> Inl e
                 | Inr (batches', email_index') \<Rightarrow>
                     (case timedelta_days 1 of
                        Inl e \<Rightarrow> Inl e
                      | Inr d \<Rightarrow>
                          (case dt_add current_date d of
                             Inl e \<Rightarrow> Inl e
                           | Inr current_date' \<Rightarrow>
                               generate_loop uuid now es subj bdy atts settings
                                 start_hour start_minute batches' email_index'
                                 current_date')))))
      else Inr batches)"
  by pat_completeness auto

lemma dt_add_day_measure:
  assumes "timedelta_days 1 = Inr d" and "dt_add t d = Inr t'"
  shows "nat (MAXORDINAL - toordinal t') < nat (MAXORDINAL - toordinal t)"
proof -
  from assms have "t' = t + us_per_day" and "toordinal t' \<le> MAXORDINAL"
    by (auto simp: timedelta_days_def dt_add_def split: if_splits)
  then show ?thesis
    by (simp add: toordinal_def us_per_day_def)
qed

termination generate_loop
  by (relation "measure (\<lambda>(uuid, now, es, subj, bdy, atts, settings, start_hour,
          start_minute, batches, email_index, current_date).
          nat (MAXORDINAL - toordinal current_date))")
     (auto dest: dt_add_day_measure)

declare generate_loop.simps [simp del]

text \<open>
  \<open>_generate_batches\<close>. The anchor day is computed first, then the start time is
  parsed, then the loops run.
\<close>

definition generate_batches ::
  "(nat \<Rightarrow> string) \<Rightarrow> datetime \<Rightarrow> string list \<Rightarrow> string \<Rightarrow> string \<Rightarrow> string list
     \<Rightarrow> schedule_settings \<Rightarrow> py_error + email_batch list" where
  "generate_batches uuid now es subj bdy atts settings =
     (case get_next_working_day now of
        Inl e \<Rightarrow> Inl e
      | Inr current_date \<Rightarrow>
          (case parse_start_time (start_time settings) of
             Inl e \<Rightarrow> Inl e
           | Inr (start_hour, start_minute) \<Rightarrow>
               generate_loop uuid now es subj bdy atts settings start_hour start_minute
                 [] 0 current_date))"


section \<open>The scheduler manager\<close>

text \<open>
  \<open>ScheduleSettings\<close> of \<open>core/config_manager.py\<close>, the value of
  \<open>config_manager.get_schedule_settings()\<close>. The fields that share a name with the
  scheduler's own \<open>ScheduleSettings\<close> carry the prefix \<open>cfg_\<close>.
\<close>

record config_schedule_settings =
  cfg_emails_per_day :: int
  cfg_emails_per_batch :: int
  cfg_start_time :: string
  cfg_working_days_only :: bool
  retry_failed_emails :: bool
  retry_attempts :: int
  retry_delay_minutes :: int
  batch_delay_minutes :: int

record schedule_result =
  success :: bool
  message :: string
  total_batches :: nat
  total_days :: int
  start_date :: "datetime option"
  end_date :: "datetime option"
  result_schedule_id :: "string option"

text \<open>
  The dictionary \<open>current_schedule\<close>. The keys written after creation
  (\<open>started_time\<close>, \<open>stopped_time\<close>, \<open>paused_time\<close>, \<open>resumed_time\<close>,
  \<open>completed_time\<close>, \<open>success_rate\<close>) are
  optional fields. \<open>sd_batches\<close> holds the \<open>asdict\<close> copies made at creation: they
  are values, not the batch objects, and later changes of a batch do not reach them.
\<close>

record schedule_data =
  sd_schedule_id :: string
  sd_created_time :: datetime
  sd_settings :: schedule_settings
  sd_batches :: "email_batch list"
  sd_subject :: string
  sd_body :: string
  sd_attachments :: "string list"
  sd_total_emails :: nat
  sd_status :: string
  sd_started_time :: "datetime option"
  sd_stopped_time :: "datetime option"
  sd_paused_time :: "datetime option"
  sd_resumed_time :: "datetime option"
  sd_completed_time :: "datetime option"
  sd_success_rate :: "real option"

record scheduler_stats =
  total_schedules_created :: int
  total_batches_sent :: int
  total_emails_sent :: int
  total_failures :: int
  average_success_rate :: real
  last_schedule_date :: "datetime option"

text \<open>
  A job of the \<open>schedule\<close> library: the time of day it runs at, the batch its closure
  holds, and its tag.
\<close>

record job =
  job_at :: string
  job_batch :: nat
  job_tag :: string

text \<open>The result of \<open>email_processor.send_email_batch\<close>.\<close>

record send_result =
  send_success :: bool
  send_message :: string

text \<open>
  The state of a \<open>SchedulerManager\<close>. Batches are mutable objects shared between the
  three lists and the closures of the jobs, so they live in a store: \<open>objects\<close> holds
  every \<open>EmailBatch\<close> created so far, and a batch is referred to by its index there.
  \<open>scheduler_thread\<close> says whether a thread object exists, \<open>jobs\<close> is the registry
  of the \<open>schedule\<close> library, and \<open>schedule_files\<close> the documents written to the
  \<open>schedules\<close> directory.
\<close>

record manager =
  objects :: "email_batch list"
  current_schedule :: "schedule_data option"
  active_batches :: "nat list"
  completed_batches :: "nat list"
  failed_batches :: "nat list"
  is_running :: bool
  scheduler_thread :: bool
  stats :: scheduler_stats
  jobs :: "job list"
  schedule_files :: "schedule_data list"

text \<open>The dictionary returned by \<open>get_current_schedule_status\<close>.\<close>

record status_snapshot =
  snap_status :: string
  snap_schedule_id :: string
  snap_created_time :: datetime
  snap_started_time :: "datetime option"
  snap_progress_percentage :: real
  snap_total_batches :: nat
  snap_completed_batches :: nat
  snap_failed_batches :: nat
  snap_pending_batches :: nat
  snap_total_emails :: nat
  snap_next_batch :: "(string \<times> datetime \<times> nat) option"
  snap_is_running :: bool

text \<open>\<open>__init__\<close>, followed by the \<open>schedule.clear()\<close> of \<open>initialize\<close>.\<close>

definition init_manager :: manager where
  "init_manager =
     \<lparr> objects = [], current_schedule = None, active_batches = [],
       completed_batches = [], failed_batches = [], is_running = False,
       scheduler_thread = False,
       stats = \<lparr> total_schedules_created = 0, total_batches_sent = 0,
                 total_emails_sent = 0, total_failures = 0, average_success_rate = 0,
                 last_schedule_date = None \<rparr>,
       jobs = [], schedule_files = [] \<rparr>"

subsection \<open>Formatting\<close>

definition digit_char :: "nat \<Rightarrow> char" where
  "digit_char n = char_of (48 + n)"

text \<open>The decimal digits of a natural number, as an f-string prints it.\<close>

function show_nat :: "nat \<Rightarrow> string" where
  "show_nat n = (if n < 10 then [digit_char n] else show_nat (n div 10) @ [digit_char (n mod 10)])"
  by pat_completeness auto
termination
  by (relation "measure id") auto

declare show_nat.simps [simp del]

text \<open>\<open>t.strftime("%H:%M")\<close>\<close>

definition strftime_HM :: "datetime \<Rightarrow> string" where
  "strftime_HM t =
     (let h = nat ((t mod us_per_day) div us_per_hour);
          m = nat ((t mod us_per_hour) div us_per_minute)
      in [digit_char (h div 10), digit_char (h mod 10), CHR '':'',
          digit_char (m div 10), digit_char (m mod 10)])"

subsection \<open>\<open>create_schedule\<close>\<close>

definition failure_result :: "string \<Rightarrow> schedule_result" where
  "failure_result msg =
     \<lparr> success = False, message = msg, total_batches = 0, total_days = 0,
       start_date = None, end_date = None, result_schedule_id = None \<rparr>"

text \<open>
  The \<open>ScheduleSettings\<close> built from the configuration when the caller passes none;
  the fields not named in the call take the defaults of the dataclass.
\<close>

definition settings_from_config :: "config_schedule_settings \<Rightarrow> schedule_settings" where
  "settings_from_config cfg =
     \<lparr> emails_per_day = cfg_emails_per_day cfg,
       emails_per_batch = cfg_emails_per_batch cfg,
       start_time = cfg_start_time cfg,
       end_time = ''18:00'',
       working_days_only = cfg_working_days_only cfg,
       batch_interval_minutes = 5,
       retry_failed_batches = retry_failed_emails cfg,
       max_retry_attempts = retry_attempts cfg,
       retry_delay_hours = 1 \<rparr>"

text \<open>
  \<open>create_schedule\<close>. \<open>cfg\<close> is the value of
  \<open>config_manager.get_schedule_settings()\<close>, \<open>uuid k\<close> the \<open>k\<close>-th identifier drawn
  by the call, \<open>now\<close> the current time, \<open>err_text e\<close> the text \<open>str(e)\<close> of an
  exception, and \<open>save_ok\<close> says whether \<open>_save_schedule\<close> manages to write its file
  (it logs and swallows its own errors). An exception inside the \<open>try\<close> can only come
  from \<open>_generate_batches\<close>, before anything is assigned.
\<close>

definition create_schedule ::
  "config_schedule_settings \<Rightarrow> (nat \<Rightarrow> string) \<Rightarrow> datetime \<Rightarrow> (py_error \<Rightarrow> string) \<Rightarrow> bool
     \<Rightarrow> string list \<Rightarrow> string \<Rightarrow> string \<Rightarrow> string list option \<Rightarrow> schedule_settings option
     \<Rightarrow> manager \<Rightarrow> schedule_result \<times> manager" where
  "create_schedule cfg uuid now err_text save_ok es subj bdy atts schedule_settings s =
     (if es = [] then (failure_result ''No emails provided for scheduling'', s)
      else if py_strip subj = [] then (failure_result ''Email subject cannot be empty'', s)
      else
        (let settings = (case schedule_settings of
                           None \<Rightarrow> settings_from_config cfg
                         | Some st \<Rightarrow> st);
             atts' = (case atts of None \<Rightarrow> [] | Some a \<Rightarrow> a)
         in case generate_batches uuid now es subj bdy atts' settings of
              Inl e \<Rightarrow> (failure_result (''Error creating schedule: '' @ err_text e), s)
            | Inr batches \<Rightarrow>
                if batches = [] then (failure_result ''Failed to generate email batches'', s)
                else
                  (let schedule_id = uuid (length batches);
                       schedule_data =
                         \<lparr> sd_schedule_id = schedule_id, sd_created_time = now,
                           sd_settings = settings, sd_batches = batches,
                           sd_subject = subj, sd_body = bdy, sd_attachments = atts',
                           sd_total_emails = length es, sd_status = ''created'',
                           sd_started_time = None, sd_stopped_time = None,
                           sd_paused_time = None, sd_resumed_time = None,
                           sd_completed_time = None, sd_success_rate = None \<rparr>;
                       first_ref = length (objects s);
                       start = fold min (map scheduled_time (tl batches))
                                 (scheduled_time (hd batches));
                       finish = fold max (map scheduled_time (tl batches))
                                  (scheduled_time (hd batches))
                   in (\<lparr> success = True,
                         message = ''Schedule created with '' @ show_nat (length batches)
                                     @ '' batches'',
                         total_batches = length batches,
                         total_days = toordinal finish - toordinal start + 1,
                         start_date = Some start, end_date = Some finish,
                         result_schedule_id = Some schedule_id \<rparr>,
                       s\<lparr> objects := objects s @ batches,
                         current_schedule := Some schedule_data,
                         active_batches := [first_ref ..< first_ref + length batches],
                         schedule_files := (if save_ok then schedule_files s @ [schedule_data]
                                            else schedule_files s),
                         stats := (stats s)\<lparr>
                           total_schedules_created := total_schedules_created (stats s) + 1,
                           last_schedule_date := Some now \<rparr> \<rparr>))))"

subsection \<open>\<open>_schedule_batch\<close>, \<open>start_schedule\<close>\<close>

text \<open>\<open>_schedule_batch\<close> registers a daily job at the batch's time of day.\<close>

definition schedule_batch :: "nat \<Rightarrow> manager \<Rightarrow> manager" where
  "schedule_batch r s =
     s\<lparr> jobs := jobs s @ [\<lparr> job_at = strftime_HM (scheduled_time (objects s ! r)),
                              job_batch = r,
                              job_tag = batch_id (objects s ! r) \<rparr>] \<rparr>"

definition start_schedule :: "datetime \<Rightarrow> manager \<Rightarrow> bool \<times> manager" where
  "start_schedule now s =
     (case current_schedule s of
        None \<Rightarrow> (False, s)
      | Some sd \<Rightarrow>
          if is_running s then (False, s)
          else
            (let s1 = s\<lparr> is_running := True, jobs := [] \<rparr>;
                 s2 = fold (\<lambda>r st. if status (objects st ! r) = ''pending''
                                    then schedule_batch r st else st)
                        (active_batches s1) s1
             in (True, s2\<lparr> scheduler_thread := True,
                          current_schedule :=
                            Some (sd\<lparr> sd_status := ''running'',
                                     sd_started_time := Some now \<rparr>) \<rparr>)))"

subsection \<open>\<open>_schedule_retry\<close> and the closure \<open>execute_batch\<close>\<close>

text \<open>
  \<open>_schedule_retry\<close> for the batch object \<open>r\<close>. The delay is read from the
  configuration manager; computing the retry time is the only step that can raise.
\<close>

definition schedule_retry ::
  "config_schedule_settings \<Rightarrow> datetime \<Rightarrow> string \<Rightarrow> nat \<Rightarrow> manager \<Rightarrow> py_error + manager" where
  "schedule_retry cfg now uid r s =
     (case timedelta_minutes (retry_delay_minutes cfg) of
        Inl e \<Rightarrow> Inl e
      | Inr d \<Rightarrow>
          (case dt_add now d of
             Inl e \<Rightarrow> Inl e
           | Inr retry_time \<Rightarrow>
               (let batch = objects s ! r;
                    retry_batch =
                      \<lparr> batch_id = uid,
                        emails = emails batch,
                        subject = subject batch,
                        body = body batch,
                        attachments = attachments batch,
                        scheduled_time = retry_time,
                        status = ''pending'',
                        created_time = Some now,
                        sent_time = None,
                        attempts = attempts batch,
                        error_message = None,
                        metadata = [(''is_retry'', PyBool True),
                                    (''original_batch_id'', PyStr (batch_id batch)),
                                    (''retry_attempt'', PyInt (attempts batch))] \<rparr>;
                    r' = length (objects s)
                in Inr (schedule_batch r'
                          (s\<lparr> objects := objects s @ [retry_batch],
                             active_batches := active_batches s @ [r'] \<rparr>)))))"

text \<open>
  The retry decision of \<open>execute_batch\<close>: \<open>if retry_failed_emails and batch.attempts <
  retry_attempts: self._schedule_retry(batch)\<close>, both read from the configuration
  manager.
\<close>

definition retry_if_enabled ::
  "config_schedule_settings \<Rightarrow> datetime \<Rightarrow> string \<Rightarrow> nat \<Rightarrow> manager \<Rightarrow> py_error + manager" where
  "retry_if_enabled cfg now uid r s =
     (if retry_failed_emails cfg \<and> attempts (objects s ! r) < retry_attempts cfg
      then schedule_retry cfg now uid r s
      else Inr s)"

text \<open>\<open>xs.remove(x)\<close> under \<open>if x in xs\<close>: the first element equal to \<open>x\<close> goes.\<close>

fun remove_first :: "('a \<Rightarrow> bool) \<Rightarrow> 'a list \<Rightarrow> 'a list" where
  "remove_first P [] = []"
| "remove_first P (x # xs) = (if P x then xs else x # remove_first P xs)"

text \<open>
  Equality of batches is the equality of dataclasses, field by field, so the element
  removed is the first one whose object equals the object \<open>r\<close>.
\<close>

definition remove_from_active :: "nat \<Rightarrow> manager \<Rightarrow> manager" where
  "remove_from_active r s =
     s\<lparr> active_batches :=
          remove_first (\<lambda>r'. objects s ! r' = objects s ! r) (active_batches s) \<rparr>"

definition update_global_statistics :: "manager \<Rightarrow> manager" where
  "update_global_statistics s =
     (case current_schedule s of
        None \<Rightarrow> s
      | Some sd \<Rightarrow>
          (let total_schedules = total_schedules_created (stats s);
               current_success_rate = (case sd_success_rate sd of None \<Rightarrow> 0 | Some x \<Rightarrow> x)
           in if total_schedules > 0 then
                s\<lparr> stats := (stats s)\<lparr> average_success_rate :=
                     (average_success_rate (stats s) * real_of_int (total_schedules - 1)
                        + current_success_rate) / real_of_int total_schedules \<rparr> \<rparr>
              else s))"

definition update_schedule_status :: "datetime \<Rightarrow> manager \<Rightarrow> manager" where
  "update_schedule_status now s =
     (case current_schedule s of
        None \<Rightarrow> s
      | Some sd \<Rightarrow>
          (let total = length (completed_batches s) + length (failed_batches s)
                         + length (active_batches s)
           in if active_batches s = [] \<and> total > 0 then
                update_global_statistics
                  (s\<lparr> current_schedule := Some (sd\<lparr>
                        sd_status := ''completed'',
                        sd_completed_time := Some now,
                        sd_success_rate :=
                          Some (real (length (completed_batches s)) / real total * 100) \<rparr>) \<rparr>)
              else s))"

text \<open>
  The two branches of \<open>execute_batch\<close> that record the result of the dispatch in
  the batch object \<open>r\<close>, in the lists and in the statistics.
\<close>

definition record_success :: "datetime \<Rightarrow> nat \<Rightarrow> manager \<Rightarrow> manager" where
  "record_success now r s =
     s\<lparr> objects := (objects s)[r := (objects s ! r)\<lparr>
                         status := ''sent'', sent_time := Some now \<rparr>],
        completed_batches := completed_batches s @ [r],
        stats := (stats s)\<lparr>
          total_batches_sent := total_batches_sent (stats s) + 1,
          total_emails_sent := total_emails_sent (stats s)
             + int (length (emails (objects s ! r))) \<rparr> \<rparr>"

definition record_failure :: "send_result \<Rightarrow> nat \<Rightarrow> manager \<Rightarrow> manager" where
  "record_failure result r s =
     s\<lparr> objects := (objects s)[r := (objects s ! r)\<lparr>
                         status := ''failed'',
                         error_message := Some (send_message result),
                         attempts := attempts (objects s ! r) + 1 \<rparr>],
        failed_batches := failed_batches s @ [r],
        stats := (stats s)\<lparr> total_failures := total_failures (stats s) + 1 \<rparr> \<rparr>"

text \<open>
  The body of the \<open>try\<close> of \<open>execute_batch\<close> for the batch object \<open>r\<close>.
  \<open>outcome\<close> is what \<open>send_email_batch\<close> does: it returns a result or raises. When
  the body raises, it returns the exception together with the state reached, since what
  was assigned before stays assigned.
\<close>

definition execute_batch_try ::
  "config_schedule_settings \<Rightarrow> datetime \<Rightarrow> string \<Rightarrow> py_error + send_result \<Rightarrow> nat \<Rightarrow> manager
     \<Rightarrow> (py_error \<times> manager) + manager" where
  "execute_batch_try cfg now uid outcome r s =
     (case outcome of
        Inl e \<Rightarrow> Inl (e, s)
      | Inr result \<Rightarrow>
          if send_success result then
            Inr (update_schedule_status now (remove_from_active r (record_success now r s)))
          else
            (let s1 = record_failure result r s
             in case retry_if_enabled cfg now uid r s1 of
                  Inl e \<Rightarrow> Inl (e, s1)
                | Inr s2 \<Rightarrow> Inr (update_schedule_status now (remove_from_active r s2))))"

text \<open>\<open>execute_batch\<close>: the \<open>try\<close> and its \<open>except Exception\<close>.\<close>

definition execute_batch ::
  "config_schedule_settings \<Rightarrow> datetime \<Rightarrow> string \<Rightarrow> (py_error \<Rightarrow> string)
     \<Rightarrow> py_error + send_result \<Rightarrow> nat \<Rightarrow> manager \<Rightarrow> manager" where
  "execute_batch cfg now uid err_text outcome r s =
     (case execute_batch_try cfg now uid outcome r s of
        Inr s' \<Rightarrow> s'
      | Inl (e, s1) \<Rightarrow>
          (let s2 = s1\<lparr> objects := (objects s1)[r := (objects s1 ! r)\<lparr>
                                        status := ''failed'',
                                        error_message := Some (err_text e),
                                        attempts := attempts (objects s1 ! r) + 1 \<rparr>] \<rparr>;
               s3 = remove_from_active r s2
           in s3\<lparr> failed_batches := failed_batches s3 @ [r] \<rparr>))"

subsection \<open>\<open>stop_schedule\<close> and \<open>get_current_schedule_status\<close>\<close>

text \<open>
  \<open>stop_schedule\<close>. \<open>scheduler_thread.join\<close> raises RuntimeError when the calling
  thread is the scheduler thread itself, which is the case when \<open>_run_scheduler\<close>
  calls \<open>stop_schedule\<close>; \<open>thread_alive\<close> and \<open>on_scheduler_thread\<close> say whether
  the thread is alive and whether the caller is that thread. The \<open>except\<close> returns False
  and leaves what was assigned before the exception.
\<close>

text \<open>
  The body of the loop \<open>for batch in self.active_batches\<close> of \<open>stop_schedule\<close>.
\<close>

definition cancel_step :: "nat \<Rightarrow> manager \<Rightarrow> manager" where
  "cancel_step r st =
     st\<lparr> objects := (objects st)[r := (objects st ! r)\<lparr> status := ''cancelled'' \<rparr>],
         failed_batches := failed_batches st @ [r] \<rparr>"

definition stop_schedule :: "bool \<Rightarrow> bool \<Rightarrow> datetime \<Rightarrow> manager \<Rightarrow> bool \<times> manager" where
  "stop_schedule thread_alive on_scheduler_thread now s =
     (if \<not> is_running s then (False, s)
      else
        (let s1 = s\<lparr> is_running := False, jobs := [] \<rparr>
         in if scheduler_thread s1 \<and> thread_alive \<and> on_scheduler_thread then (False, s1)
            else
              (let s2 = s1\<lparr> current_schedule :=
                             map_option (\<lambda>sd. sd\<lparr> sd_status := ''stopped'',
                                                   sd_stopped_time := Some now \<rparr>)
                               (current_schedule s1) \<rparr>;
                   s3 = fold cancel_step (active_batches s2) s2
               in (True, s3\<lparr> active_batches := [] \<rparr>))))"

subsection \<open>\<open>pause_schedule\<close> and \<open>resume_schedule\<close>\<close>

text \<open>\<open>pause_schedule\<close> clears the jobs and leaves \<open>is_running\<close> as it is.\<close>

definition pause_schedule :: "datetime \<Rightarrow> manager \<Rightarrow> bool \<times> manager" where
  "pause_schedule now s =
     (if \<not> is_running s then (False, s)
      else (True, s\<lparr> jobs := [],
                     current_schedule :=
                       map_option (\<lambda>sd. sd\<lparr> sd_status := ''paused'',
                                             sd_paused_time := Some now \<rparr>)
                         (current_schedule s) \<rparr>))"

text \<open>
  The loop of \<open>resume_schedule\<close> over the active batches. A pending batch whose time
  has passed is moved to five minutes from now, and every pending batch gets a job
  again. Computing the new time can raise; the loop then returns the exception with the
  state reached.
\<close>

fun resume_loop :: "datetime \<Rightarrow> nat list \<Rightarrow> manager \<Rightarrow> (py_error \<times> manager) + manager" where
  "resume_loop now [] s = Inr s"
| "resume_loop now (r # rs) s =
     (if status (objects s ! r) = ''pending'' then
        (if scheduled_time (objects s ! r) < now then
           (case timedelta_minutes 5 of
              Inl e \<Rightarrow> Inl (e, s)
            | Inr d \<Rightarrow>
                (case dt_add now d of
                   Inl e \<Rightarrow> Inl (e, s)
                 | Inr t \<Rightarrow>
                     resume_loop now rs
                       (schedule_batch r
                          (s\<lparr> objects := (objects s)[r := (objects s ! r)\<lparr>
                                              scheduled_time := t \<rparr>] \<rparr>))))
         else resume_loop now rs (schedule_batch r s))
      else resume_loop now rs s)"

text \<open>
  \<open>resume_schedule\<close>: only a paused schedule is resumed, and the \<open>except\<close> returns
  False with what the loop had assigned.
\<close>

definition resume_schedule :: "datetime \<Rightarrow> manager \<Rightarrow> bool \<times> manager" where
  "resume_schedule now s =
     (case current_schedule s of
        None \<Rightarrow> (False, s)
      | Some sd \<Rightarrow>
          if sd_status sd \<noteq> ''paused'' then (False, s)
          else
            (case resume_loop now (active_batches s) s of
               Inl (e, s1) \<Rightarrow> (False, s1)
             | Inr s1 \<Rightarrow>
                 (True, s1\<lparr> current_schedule :=
                              Some (sd\<lparr> sd_status := ''running'',
                                       sd_resumed_time := Some now \<rparr>) \<rparr>)))"

text \<open>\<open>min(xs, key=f)\<close> of a non-empty list: the first element with the least key.\<close>

fun min_by :: "('a \<Rightarrow> int) \<Rightarrow> 'a \<Rightarrow> 'a list \<Rightarrow> 'a" where
  "min_by f best [] = best"
| "min_by f best (x # xs) = min_by f (if f x < f best then x else best) xs"

text \<open>
  \<open>get_current_schedule_status\<close>; \<open>None\<close> stands for the dictionary
  \<open>{'status': 'no_schedule'}\<close>. The times are kept as values where the source formats
  them with \<open>isoformat\<close>.
\<close>

definition get_current_schedule_status :: "manager \<Rightarrow> status_snapshot option" where
  "get_current_schedule_status s =
     (case current_schedule s of
        None \<Rightarrow> None
      | Some sd \<Rightarrow>
          (let total = length (completed_batches s) + length (failed_batches s)
                         + length (active_batches s);
               completed = length (completed_batches s);
               failed = length (failed_batches s);
               pending = length (active_batches s)
           in Some \<lparr> snap_status = sd_status sd,
                     snap_schedule_id = sd_schedule_id sd,
                     snap_created_time = sd_created_time sd,
                     snap_started_time = sd_started_time sd,
                     snap_progress_percentage =
                       (if total > 0 then real (completed + failed) / real total * 100 else 0),
                     snap_total_batches = total,
                     snap_completed_batches = completed,
                     snap_failed_batches = failed,
                     snap_pending_batches = pending,
                     snap_total_emails = sd_total_emails sd,
                     snap_next_batch =
                       (case active_batches s of
                          [] \<Rightarrow> None
                        | r # rs \<Rightarrow>
                            (let b = objects s ! min_by (\<lambda>r'. scheduled_time (objects s ! r')) r rs
                             in Some (batch_id b, scheduled_time b, length (emails b)))),
                     snap_is_running = is_running s \<rparr>))"

section \<open>Auxiliary definitions for the properties\<close>

text \<open>The condition of the inner loop of \<open>_generate_batches\<close>, named.\<close>

definition day_cond ::
  "string list \<Rightarrow> schedule_settings \<Rightarrow> datetime \<Rightarrow> int \<Rightarrow> email_batch list \<Rightarrow> nat \<Rightarrow> int
     \<Rightarrow> bool" where
  "day_cond es settings current_date max_daily_batches batches email_index daily_batches =
     (email_index < length es \<and> daily_batches < max_daily_batches
         \<and> int (length (emails_on_day batches current_date)) < emails_per_day settings)"


text \<open>Concrete inputs on which the theorems below are instantiated.\<close>

definition demo_settings :: schedule_settings where
  "demo_settings =
     \<lparr> emails_per_day = 10, emails_per_batch = 5, start_time = ''09:00'',
       end_time = ''18:00'', working_days_only = False, batch_interval_minutes = 5,
       retry_failed_batches = True, max_retry_attempts = 3, retry_delay_hours = 1 \<rparr>"


definition demo_uuid :: "nat \<Rightarrow> string" where
  "demo_uuid n = replicate (Suc n) CHR ''u''"

text \<open>Tuesday 2026-11-03, five microseconds after midnight.\<close>

definition demo_now :: datetime where
  "demo_now = 739923 * us_per_day + 5"

text \<open>
  A plan that starts late in the evening, and Thursday 2026-11-05, 10:00, as the
  current time.
\<close>

definition weekend_settings :: schedule_settings where
  "weekend_settings =
     \<lparr> emails_per_day = 10, emails_per_batch = 5, start_time = ''23:58'',
       end_time = ''18:00'', working_days_only = True, batch_interval_minutes = 5,
       retry_failed_batches = True, max_retry_attempts = 3, retry_delay_hours = 1 \<rparr>"

definition thursday_now :: datetime where
  "thursday_now = 739925 * us_per_day + 36000000000"

text \<open>
  Friday 2026-11-06, 10:00, as the current time, and a plan whose batches of one day
  are spaced five minutes backwards from midnight.
\<close>

definition friday_now :: datetime where
  "friday_now = 739926 * us_per_day + 36000000000"

definition backwards_settings :: schedule_settings where
  "backwards_settings =
     \<lparr> emails_per_day = 10, emails_per_batch = 5, start_time = ''00:00'',
       end_time = ''18:00'', working_days_only = False, batch_interval_minutes = - 5,
       retry_failed_batches = True, max_retry_attempts = 3, retry_delay_hours = 1 \<rparr>"

text \<open>
  The configuration with the defaults of \<open>config_manager.ScheduleSettings\<close>, and a
  manager that has created, and then started, the schedule of the 25-recipient example.
\<close>

definition demo_config :: config_schedule_settings where
  "demo_config =
     \<lparr> cfg_emails_per_day = 499, cfg_emails_per_batch = 10, cfg_start_time = ''06:00'',
       cfg_working_days_only = True, retry_failed_emails = True, retry_attempts = 3,
       retry_delay_minutes = 30, batch_delay_minutes = 2 \<rparr>"

definition demo_err_text :: "py_error \<Rightarrow> string" where
  "demo_err_text e = ''error''"

definition demo_created :: manager where
  "demo_created =
     snd (create_schedule demo_config demo_uuid demo_now demo_err_text True
            (replicate 25 ''a'') ''s'' ''b'' None (Some demo_settings) init_manager)"

definition demo_running :: manager where
  "demo_running = snd (start_schedule demo_now demo_created)"

text \<open>
  The state in which the retry decision is taken when the first batch of the running
  schedule fails: the failure has been recorded in the batch.
\<close>

definition demo_failed_once :: manager where
  "demo_failed_once =
     record_failure \<lparr> send_success = False, send_message = ''rejected'' \<rparr> 0 demo_running"

text \<open>
  A batch whose every dispatch fails. The batch object \<open>r\<close> is executed with a
  transport that reports failure; when this creates a retry batch, which is then the
  newest object, that batch is executed in turn, and so on until no retry is created.
  The result is the number of failed dispatches and the final state; \<open>fuel\<close> bounds
  the number of rounds.
\<close>

fun fail_chain ::
  "nat \<Rightarrow> config_schedule_settings \<Rightarrow> datetime \<Rightarrow> (nat \<Rightarrow> string) \<Rightarrow> (py_error \<Rightarrow> string)
     \<Rightarrow> string \<Rightarrow> nat \<Rightarrow> manager \<Rightarrow> (nat \<times> manager) option" where
  "fail_chain 0 cfg now uuid err_text msg r s = None"
| "fail_chain (Suc fuel) cfg now uuid err_text msg r s =
     (let s' = execute_batch cfg now (uuid (length (objects s))) err_text
                 (Inr \<lparr> send_success = False, send_message = msg \<rparr>) r s
      in if length (objects s) < length (objects s') then
           (case fail_chain fuel cfg now uuid err_text msg (length (objects s)) s' of
              None \<Rightarrow> None
            | Some (n, s'') \<Rightarrow> Some (Suc n, s''))
         else Some (1, s'))"

section \<open>Basic facts about dates and slices\<close>

lemma timedelta_days_one: "timedelta_days 1 = Inr us_per_day"
  by (simp add: timedelta_days_def)

lemma dt_add_Inr: "dt_add t d = Inr t' \<Longrightarrow> t' = t + d \<and> 1 \<le> toordinal t' \<and> toordinal t' \<le> MAXORDINAL"
  by (auto simp: dt_add_def split: if_splits)

lemma timedelta_minutes_Inr: "timedelta_minutes n = Inr d \<Longrightarrow> d = n * us_per_minute"
  by (auto simp: timedelta_minutes_def split: if_splits)

lemma py_slice_forward:
  assumes "0 < b"
  shows "py_slice xs (int i) (int i + b) = take (nat b) (drop i xs)"
proof (cases "i \<le> length xs")
  case True
  with assms have "py_clip (length xs) (int i) = i"
    and "py_clip (length xs) (int i + b) = min (i + nat b) (length xs)"
    by (auto simp: py_clip_def nat_add_distrib)
  then show ?thesis using True
    by (simp add: py_slice_def min_def)
next
  case False
  then show ?thesis by (simp add: py_slice_def py_clip_def)
qed

lemma take_length_take: "take (length (take n ys)) ys = take n ys"
  by (simp add: min_def)


section \<open>Invariant rules for the two loops of the planner\<close>

text \<open>
  Both loops are unfolded by one equation per branch, and every loop invariant is
  proved through one rule per loop: a predicate that holds at the start and is kept by
  each iteration that does not raise holds when the loop returns.
\<close>

lemma day_loop_stop:
  "\<not> day_cond es settings current_date max_daily_batches batches email_index daily_batches
   \<Longrightarrow> day_loop uuid now es subj bdy atts settings current_date max_daily_batches
         batches email_index daily_batches current_time = Inr (batches, email_index)"
  by (subst day_loop.simps) (auto simp: day_cond_def)

lemma day_loop_step:
  "day_cond es settings current_date max_daily_batches batches email_index daily_batches
   \<Longrightarrow> day_loop uuid now es subj bdy atts settings current_date max_daily_batches
         batches email_index daily_batches current_time =
       (case timedelta_minutes (batch_interval_minutes settings) of
          Inl e \<Rightarrow> Inl e
        | Inr d \<Rightarrow>
            (case dt_add current_time d of
               Inl e \<Rightarrow> Inl e
             | Inr current_time' \<Rightarrow>
                 day_loop uuid now es subj bdy atts settings current_date max_daily_batches
                   (batches @ [new_batch (uuid (length batches)) now
                      (py_slice es (int email_index) (int email_index + emails_per_batch settings))
                      subj bdy atts current_time daily_batches max_daily_batches])
                   (email_index + length (py_slice es (int email_index)
                      (int email_index + emails_per_batch settings)))
                   (daily_batches + 1) current_time'))"
  by (subst day_loop.simps) (simp add: day_cond_def Let_def)

lemma day_loop_rule:
  assumes run: "day_loop uuid now es subj bdy atts settings current_date max_daily_batches
       batches email_index daily_batches current_time = Inr (batches', email_index')"
    and init: "P batches email_index daily_batches current_time"
    and step: "\<And>bs i k t.
       \<lbrakk>P bs i k t; day_cond es settings current_date max_daily_batches bs i k;
        1 \<le> toordinal (t + batch_interval_minutes settings * us_per_minute);
        toordinal (t + batch_interval_minutes settings * us_per_minute) \<le> MAXORDINAL\<rbrakk>
       \<Longrightarrow> P (bs @ [new_batch (uuid (length bs)) now
                      (py_slice es (int i) (int i + emails_per_batch settings))
                      subj bdy atts t k max_daily_batches])
             (i + length (py_slice es (int i) (int i + emails_per_batch settings)))
             (k + 1) (t + batch_interval_minutes settings * us_per_minute)"
  shows "\<exists>k t. P batches' email_index' k t
           \<and> \<not> day_cond es settings current_date max_daily_batches batches' email_index' k"
  using run init step
proof (induction uuid now es subj bdy atts settings current_date max_daily_batches
       batches email_index daily_batches current_time rule: day_loop.induct)
  case (1 uuid now es subj bdy atts settings current_date max_daily_batches
       batches email_index daily_batches current_time)
  show ?case
  proof (cases "day_cond es settings current_date max_daily_batches batches
                  email_index daily_batches")
    case False
    with "1.prems"(1) have "batches' = batches" "email_index' = email_index"
      by (simp_all add: day_loop_stop)
    with False "1.prems"(2) show ?thesis by blast
  next
    case True
    then have c: "email_index < length es \<and> daily_batches < max_daily_batches
         \<and> int (length (emails_on_day batches current_date)) < emails_per_day settings"
      by (simp add: day_cond_def)
    define batch_emails where
      "batch_emails = py_slice es (int email_index) (int email_index + emails_per_batch settings)"
    define batch where
      "batch = new_batch (uuid (length batches)) now batch_emails subj bdy atts
                       current_time daily_batches max_daily_batches"
    from "1.prems"(1) c obtain d current_time' where
      d: "timedelta_minutes (batch_interval_minutes settings) = Inr d" and
      ct: "dt_add current_time d = Inr current_time'" and
      rec: "day_loop uuid now es subj bdy atts settings current_date max_daily_batches
              (batches @ [batch]) (email_index + length batch_emails) (daily_batches + 1)
              current_time' = Inr (batches', email_index')"
      by (auto simp: day_loop_step [OF True] batch_emails_def batch_def split: sum.splits)
    from d ct have t': "current_time' = current_time + batch_interval_minutes settings * us_per_minute"
      and r: "1 \<le> toordinal current_time'" "toordinal current_time' \<le> MAXORDINAL"
      by (auto dest!: dt_add_Inr timedelta_minutes_Inr)
    have "P (batches @ [batch]) (email_index + length batch_emails) (daily_batches + 1)
            current_time'"
      unfolding batch_def batch_emails_def t'
      using "1.prems"(2) True r unfolding t' by (rule "1.prems"(3))
    then show ?thesis
      apply (rule "1.IH"[OF c batch_emails_def batch_def d ct rec])
      apply (erule (3) "1.prems"(3))
      done
  qed
qed


lemma generate_loop_done:
  "\<not> email_index < length es
   \<Longrightarrow> generate_loop uuid now es subj bdy atts settings start_hour start_minute
         batches email_index current_date = Inr batches"
  by (subst generate_loop.simps) simp

lemma generate_loop_skip:
  "email_index < length es \<Longrightarrow> working_days_only settings \<and> weekday current_date \<ge> 5
   \<Longrightarrow> generate_loop uuid now es subj bdy atts settings start_hour start_minute
         batches email_index current_date =
       (case dt_add current_date us_per_day of
          Inl e \<Rightarrow> Inl e
        | Inr current_date' \<Rightarrow>
            generate_loop uuid now es subj bdy atts settings start_hour start_minute
              batches email_index current_date')"
  by (subst generate_loop.simps) (simp add: timedelta_days_one)

lemma generate_loop_day:
  "email_index < length es \<Longrightarrow> \<not> (working_days_only settings \<and> weekday current_date \<ge> 5)
   \<Longrightarrow> generate_loop uuid now es subj bdy atts settings start_hour start_minute
         batches email_index current_date =
       (if emails_per_batch settings = 0 then Inl ZeroDivisionError
        else
          (case replace_hour_minute current_date start_hour start_minute of
             Inl e \<Rightarrow> Inl e
           | Inr current_time \<Rightarrow>
               (case day_loop uuid now es subj bdy atts settings current_date
                       (emails_per_day settings div emails_per_batch settings)
                       batches email_index 0 current_time of
                  Inl e \<Rightarrow> Inl e
                | Inr (batches', email_index') \<Rightarrow>
                    (case dt_add current_date us_per_day of
                       Inl e \<Rightarrow> Inl e
                     | Inr current_date' \<Rightarrow>
                         generate_loop uuid now es subj bdy atts settings
                           start_hour start_minute batches' email_index' current_date'))))"
  by (subst generate_loop.simps)
     (auto simp: timedelta_days_one split: sum.splits prod.splits)

lemma generate_loop_rule:
  assumes run: "generate_loop uuid now es subj bdy atts settings start_hour start_minute
       batches email_index current_date = Inr result"
    and init: "P batches email_index current_date"
    and skip: "\<And>bs i c.
       \<lbrakk>P bs i c; i < length es; working_days_only settings; weekday c \<ge> 5;
        toordinal (c + us_per_day) \<le> MAXORDINAL\<rbrakk>
       \<Longrightarrow> P bs i (c + us_per_day)"
    and day: "\<And>bs i c t bs' i'.
       \<lbrakk>P bs i c; i < length es; \<not> (working_days_only settings \<and> weekday c \<ge> 5);
        emails_per_batch settings \<noteq> 0;
        replace_hour_minute c start_hour start_minute = Inr t;
        day_loop uuid now es subj bdy atts settings c
          (emails_per_day settings div emails_per_batch settings) bs i 0 t = Inr (bs', i');
        toordinal (c + us_per_day) \<le> MAXORDINAL\<rbrakk>
       \<Longrightarrow> P bs' i' (c + us_per_day)"
  shows "\<exists>i c. P result i c \<and> \<not> i < length es"
  using run init skip day
proof (induction uuid now es subj bdy atts settings start_hour start_minute
       batches email_index current_date rule: generate_loop.induct)
  case (1 uuid now es subj bdy atts settings start_hour start_minute
       batches email_index current_date)
  show ?case
  proof (cases "email_index < length es")
    case False
    with "1.prems"(1) have "result = batches"
      by (simp add: generate_loop_done)
    with False "1.prems"(2) show ?thesis by blast
  next
    case True
    show ?thesis
    proof (cases "working_days_only settings \<and> weekday current_date \<ge> 5")
      case wk: True
      from "1.prems"(1) obtain current_date' where
        cd: "dt_add current_date us_per_day = Inr current_date'" and
        rec: "generate_loop uuid now es subj bdy atts settings start_hour start_minute
               batches email_index current_date' = Inr result"
        by (auto simp: generate_loop_skip [OF True wk] split: sum.splits)
      from cd have cd': "current_date' = current_date + us_per_day"
        and r: "toordinal (current_date + us_per_day) \<le> MAXORDINAL"
        by (auto dest!: dt_add_Inr)
      from wk have w1: "working_days_only settings" and w2: "weekday current_date \<ge> 5"
        by simp_all
      have p: "P batches email_index current_date'"
        unfolding cd' using "1.prems"(2) True w1 w2 r by (rule "1.prems"(3))
      from cd have cdd: "dt_add current_date us_per_day = Inr current_date'" .
      show ?thesis
        apply (rule "1.IH"(1)[OF True wk timedelta_days_one cdd rec p])
         apply (erule (4) "1.prems"(3))
        apply (erule (6) "1.prems"(4))
        done
    next
      case wk: False
      from "1.prems"(1) have nz: "emails_per_batch settings \<noteq> 0"
        by (auto simp: generate_loop_day [OF True wk] split: if_splits)
      from "1.prems"(1) nz obtain current_time bs' i' current_date' where
        rp: "replace_hour_minute current_date start_hour start_minute = Inr current_time" and
        dl: "day_loop uuid now es subj bdy atts settings current_date
               (emails_per_day settings div emails_per_batch settings)
               batches email_index 0 current_time = Inr (bs', i')" and
        cd: "dt_add current_date us_per_day = Inr current_date'" and
        rec: "generate_loop uuid now es subj bdy atts settings start_hour start_minute
               bs' i' current_date' = Inr result"
        by (auto simp: generate_loop_day [OF True wk] split: sum.splits prod.splits)
      from cd have cd': "current_date' = current_date + us_per_day"
        and r: "toordinal (current_date + us_per_day) \<le> MAXORDINAL"
        by (auto dest!: dt_add_Inr)
      have p: "P bs' i' current_date'"
        unfolding cd' using "1.prems"(2) True wk nz rp dl r by (rule "1.prems"(4))
      show ?thesis
        apply (rule "1.IH"(2)[OF True wk nz rp dl refl timedelta_days_one cd rec p])
         apply (erule (4) "1.prems"(3))
        apply (erule (6) "1.prems"(4))
        done
    qed
  qed
qed



section \<open>The planner partitions the recipient list\<close>

lemma day_loop_concat:
  assumes "day_loop uuid now es subj bdy atts settings current_date max_daily_batches
       batches email_index daily_batches current_time = Inr (batches', email_index')"
    and "0 < emails_per_batch settings"
    and "concat (map emails batches) = take email_index es"
  shows "concat (map emails batches') = take email_index' es"
proof -
  have "\<exists>k (t::int). concat (map emails batches') = take email_index' es
          \<and> \<not> day_cond es settings current_date max_daily_batches batches' email_index' k"
  proof (rule day_loop_rule
           [where P = "\<lambda>bs i k t. concat (map emails bs) = take i es", OF assms(1)])
    show "concat (map emails batches) = take email_index es" by (rule assms(3))
  next
    fix bs :: "email_batch list" and i :: nat and k t :: int
    assume inv: "concat (map emails bs) = take i es"
    let ?sl = "py_slice es (int i) (int i + emails_per_batch settings)"
    have sl: "?sl = take (nat (emails_per_batch settings)) (drop i es)"
      using assms(2) by (rule py_slice_forward)
    have "take (length ?sl) (drop i es) = ?sl"
      unfolding sl by (rule take_length_take)
    with inv show "concat (map emails (bs @ [new_batch (uuid (length bs)) now ?sl subj bdy atts
                      t k max_daily_batches])) = take (i + length ?sl) es"
      by (simp add: new_batch_def take_add)
  qed
  then show ?thesis by blast
qed

lemma generate_loop_concat:
  assumes "generate_loop uuid now es subj bdy atts settings start_hour start_minute
       batches email_index current_date = Inr result"
    and "0 < emails_per_batch settings"
    and "concat (map emails batches) = take email_index es"
  shows "concat (map emails result) = es"
proof -
  have "\<exists>i (c::int). concat (map emails result) = take i es \<and> \<not> i < length es"
  proof (rule generate_loop_rule
           [where P = "\<lambda>bs i c. concat (map emails bs) = take i es", OF assms(1)])
    show "concat (map emails batches) = take email_index es" by (rule assms(3))
  next
    fix bs :: "email_batch list" and i :: nat and c :: int
    assume "concat (map emails bs) = take i es"
    then show "concat (map emails bs) = take i es" .
  next
    fix bs bs' :: "email_batch list" and i i' :: nat and c t :: int
    assume "concat (map emails bs) = take i es"
      and "day_loop uuid now es subj bdy atts settings c
             (emails_per_day settings div emails_per_batch settings) bs i 0 t = Inr (bs', i')"
    then show "concat (map emails bs') = take i' es"
      using assms(2) by (auto intro: day_loop_concat)
  qed
  then show ?thesis by auto
qed


text \<open>
  Claim C2. Whenever \<open>_generate_batches\<close> returns, with a positive
  \<open>emails_per_batch\<close>, the recipient lists of the returned batches, concatenated in
  batch order, are the input list: the batches are contiguous slices in order, and no
  address is dropped or repeated.
\<close>

theorem planner_partitions_recipients:
  assumes "generate_batches uuid now es subj bdy atts settings = Inr batches"
    and "0 < emails_per_batch settings"
  shows "concat (map emails batches) = es"
proof -
  from assms(1) obtain current_date start_hour start_minute where
    "generate_loop uuid now es subj bdy atts settings start_hour start_minute
       [] 0 current_date = Inr batches"
    by (auto simp: generate_batches_def split: sum.splits prod.splits)
  then show ?thesis
    using assms(2) by (rule generate_loop_concat) simp
qed

theorem planner_partitions_recipients_witness:
  "\<not> isl (generate_batches demo_uuid demo_now (replicate 25 ''a'') ''s'' ''b'' [] demo_settings)
   \<and> 0 < emails_per_batch demo_settings
   \<and> concat (map emails (projr (generate_batches demo_uuid demo_now (replicate 25 ''a'')
         ''s'' ''b'' [] demo_settings))) = replicate 25 ''a''"
proof -
  have r: "\<not> isl (generate_batches demo_uuid demo_now (replicate 25 ''a'') ''s'' ''b'' []
             demo_settings)"
    by code_simp
  then obtain bs where
    bs: "generate_batches demo_uuid demo_now (replicate 25 ''a'') ''s'' ''b'' [] demo_settings
           = Inr bs"
    by (cases "generate_batches demo_uuid demo_now (replicate 25 ''a'') ''s'' ''b'' []
                 demo_settings") auto
  have p: "0 < emails_per_batch demo_settings"
    by (simp add: demo_settings_def)
  from planner_partitions_recipients [OF bs p] r p bs show ?thesis by simp
qed


section \<open>The planner respects the batch and daily capacities\<close>

text \<open>
  The batches of one processed day are numbered by \<open>daily_batches\<close>, and batch \<open>j\<close>
  of the day that starts at \<open>t0\<close> is scheduled at \<open>t0\<close> plus \<open>j\<close> intervals, which
  may be a later calendar day. The batches that land on a given calendar day come from
  pairwise different numbers \<open>j\<close>, whatever day they were created for, so there are at
  most \<open>max_daily_batches\<close> of them.
\<close>

lemma length_py_slice_le:
  "0 < b \<Longrightarrow> int (length (py_slice xs (int i) (int i + b))) \<le> b"
  by (simp add: py_slice_forward)

lemma emails_on_day_append:
  "emails_on_day (bs @ [b]) day =
     emails_on_day bs day @ (if toordinal (scheduled_time b) = toordinal day then emails b else [])"
  by (simp add: emails_on_day_def)

lemma card_window_Suc:
  "0 \<le> k \<Longrightarrow> card {j::int. 0 \<le> j \<and> j < k + 1 \<and> Q j} =
     card {j. 0 \<le> j \<and> j < k \<and> Q j} + (if Q k then 1 else 0)"
proof -
  assume k: "0 \<le> k"
  have fin: "finite {j. 0 \<le> j \<and> j < k \<and> Q j}"
    by (rule finite_subset [of _ "{0..<k}"]) auto
  have "{j. 0 \<le> j \<and> j < k + 1 \<and> Q j} =
          {j. 0 \<le> j \<and> j < k \<and> Q j} \<union> (if Q k then {k} else {})"
    using k by (auto simp: order_le_less)
  then show ?thesis using fin by (simp add: card_insert_if)
qed

lemma day_loop_day_total:
  assumes run: "day_loop uuid now es subj bdy atts settings current_date max_daily_batches
       batches email_index 0 t0 = Inr (batches', email_index')"
    and b: "0 < emails_per_batch settings"
  shows "int (length (emails_on_day batches' day)) \<le>
           int (length (emails_on_day batches day))
         + emails_per_batch settings *
             int (card {j. 0 \<le> j \<and> j < max_daily_batches
                   \<and> toordinal (t0 + j * (batch_interval_minutes settings * us_per_minute))
                       = toordinal day})"
proof -
  let ?iv = "batch_interval_minutes settings * us_per_minute"
  let ?Q = "\<lambda>j. toordinal (t0 + j * ?iv) = toordinal day"
  let ?P = "\<lambda>bs (i::nat) k t. 0 \<le> k \<and> k \<le> max 0 max_daily_batches \<and> t = t0 + k * ?iv
       \<and> int (length (emails_on_day bs day)) \<le> int (length (emails_on_day batches day))
            + emails_per_batch settings * int (card {j. 0 \<le> j \<and> j < k \<and> ?Q j})"
  have "\<exists>k t. ?P batches' email_index' k t
          \<and> \<not> day_cond es settings current_date max_daily_batches batches' email_index' k"
  proof (rule day_loop_rule [where P = ?P, OF run])
    show "?P batches email_index 0 t0" using b by simp
  next
    fix bs :: "email_batch list" and i :: nat and k t :: int
    assume P: "?P bs i k t"
      and c: "day_cond es settings current_date max_daily_batches bs i k"
    let ?sl = "py_slice es (int i) (int i + emails_per_batch settings)"
    let ?nb = "new_batch (uuid (length bs)) now ?sl subj bdy atts t k max_daily_batches"
    from P have k0: "0 \<le> k" and t: "t = t0 + k * ?iv" by simp_all
    from c have km: "k < max_daily_batches" by (simp add: day_cond_def)
    have len: "int (length ?sl) \<le> emails_per_batch settings"
      using b by (rule length_py_slice_le)
    have "int (length (emails_on_day (bs @ [?nb]) day)) \<le>
            int (length (emails_on_day bs day))
            + emails_per_batch settings * (if ?Q k then 1 else 0)"
      using len b by (simp add: emails_on_day_append new_batch_def t)
    also have "\<dots> \<le> int (length (emails_on_day batches day))
            + emails_per_batch settings * int (card {j. 0 \<le> j \<and> j < k \<and> ?Q j})
            + emails_per_batch settings * (if ?Q k then 1 else 0)"
      using P by simp
    also have "\<dots> = int (length (emails_on_day batches day))
            + emails_per_batch settings * int (card {j. 0 \<le> j \<and> j < k + 1 \<and> ?Q j})"
      unfolding card_window_Suc [OF k0] by (simp add: distrib_left)
    finally show "?P (bs @ [?nb]) (i + length ?sl) (k + 1) (t + ?iv)"
      using k0 km t by (simp add: algebra_simps)
  qed
  then obtain k where k: "k \<le> max 0 max_daily_batches"
    and le: "int (length (emails_on_day batches' day)) \<le> int (length (emails_on_day batches day))
            + emails_per_batch settings * int (card {j. 0 \<le> j \<and> j < k \<and> ?Q j})"
    by blast
  have "card {j. 0 \<le> j \<and> j < k \<and> ?Q j} \<le> card {j. 0 \<le> j \<and> j < max_daily_batches \<and> ?Q j}"
  proof (rule card_mono)
    show "finite {j. 0 \<le> j \<and> j < max_daily_batches \<and> ?Q j}"
      by (rule finite_subset [of _ "{0..<max_daily_batches}"]) auto
    show "{j. 0 \<le> j \<and> j < k \<and> ?Q j} \<subseteq> {j. 0 \<le> j \<and> j < max_daily_batches \<and> ?Q j}"
      using k by auto
  qed
  then have "emails_per_batch settings * int (card {j. 0 \<le> j \<and> j < k \<and> ?Q j})
          \<le> emails_per_batch settings * int (card {j. 0 \<le> j \<and> j < max_daily_batches \<and> ?Q j})"
    using b by (simp add: mult_left_mono)
  with le show ?thesis by linarith
qed


lemma toordinal_add_day: "toordinal (c + us_per_day) = toordinal c + 1"
  by (simp add: toordinal_def us_per_day_def)

lemma mod_add_day: "(c + us_per_day) mod us_per_day = c mod us_per_day"
  by simp

lemma toordinal_day_offset: "toordinal (k * us_per_day + x) = k + toordinal x"
  by (simp add: toordinal_def us_per_day_def)

lemma midnight_eq: "c mod us_per_day = 0 \<Longrightarrow> c = toordinal c * us_per_day"
  by (auto simp: toordinal_def)

lemma midnight_mod_minute: "c mod us_per_day = 0 \<Longrightarrow> c mod us_per_minute = 0"
proof -
  assume "c mod us_per_day = 0"
  then have "us_per_day dvd c" by (simp add: dvd_eq_mod_eq_0)
  moreover have "us_per_minute dvd us_per_day"
    by (simp add: us_per_minute_def us_per_day_def)
  ultimately have "us_per_minute dvd c" by (rule dvd_trans [rotated])
  then show ?thesis by simp
qed

lemma replace_hour_minute_midnight:
  assumes "replace_hour_minute c h m = Inr t" and "c mod us_per_day = 0"
  shows "t = toordinal c * us_per_day + (h * us_per_hour + m * us_per_minute)"
  using assms midnight_mod_minute [OF assms(2)]
  by (auto simp: replace_hour_minute_def split: if_splits)

lemma skip_weekend_result:
  "skip_weekend t = Inr d \<Longrightarrow>
     weekday d < 5 \<and> toordinal t \<le> toordinal d \<and> (t mod us_per_day = 0 \<longrightarrow> d mod us_per_day = 0)"
proof (induction t rule: skip_weekend.induct)
  case (1 next_day)
  show ?case
  proof (cases "weekday next_day \<ge> 5")
    case False
    with "1.prems" show ?thesis
      by (subst (asm) skip_weekend.simps) simp
  next
    case True
    with "1.prems" obtain t' where
      a: "dt_add next_day us_per_day = Inr t'" and r: "skip_weekend t' = Inr d"
      by (subst (asm) skip_weekend.simps)
         (auto simp: timedelta_days_one split: sum.splits)
    from a have t': "t' = next_day + us_per_day" by (auto dest: dt_add_Inr)
    from "1.IH" [OF True timedelta_days_one a r] show ?thesis
      by (simp add: t' toordinal_add_day)
  qed
qed

lemma get_next_working_day_result:
  assumes "get_next_working_day now = Inr d"
  shows "weekday d < 5" and "toordinal now < toordinal d" and "d mod us_per_day = 0"
proof -
  from assms obtain t where
    a: "dt_add (replace_midnight now) us_per_day = Inr t" and r: "skip_weekend t = Inr d"
    by (auto simp: get_next_working_day_def timedelta_days_one split: sum.splits)
  from a have t: "t = replace_midnight now + us_per_day" by (auto dest: dt_add_Inr)
  have m: "t mod us_per_day = 0" by (simp add: t replace_midnight_def)
  have o: "toordinal t = toordinal now + 1"
    by (simp add: t replace_midnight_def toordinal_def us_per_day_def)
  from skip_weekend_result [OF r] m o
  show "weekday d < 5" and "toordinal now < toordinal d" and "d mod us_per_day = 0"
    by simp_all
qed

lemma sum_int_interval_Suc:
  fixes f :: "int \<Rightarrow> int"
  assumes "k0 \<le> k"
  shows "(\<Sum>j\<in>{k0..<k + 1}. f j) = (\<Sum>j\<in>{k0..<k}. f j) + f k"
proof -
  have "{k0..<k + 1} = insert k {k0..<k}" using assms by auto
  then show ?thesis by simp
qed

lemma sum_int_interval_mono:
  fixes f :: "int \<Rightarrow> int"
  assumes "\<And>j. 0 \<le> f j"
  shows "(\<Sum>j\<in>{k0..<k}. f j) \<le> (\<Sum>j\<in>{k0..<k + 1}. f j)"
  using assms by (intro sum_mono2) auto

lemma windows_sum_le:
  fixes m D x iv k0 k1 :: int
  shows "(\<Sum>k\<in>{k0..<k1}. card {j. 0 \<le> j \<and> j < m \<and> toordinal (k * us_per_day + (x + j * iv)) = D})
           \<le> nat m"
proof -
  let ?W = "\<lambda>k. {j. 0 \<le> j \<and> j < m \<and> toordinal (k * us_per_day + (x + j * iv)) = D}"
  have fin: "\<forall>k\<in>{k0..<k1}. finite (?W k)"
  proof
    fix k show "finite (?W k)" by (rule finite_subset [of _ "{0..<m}"]) auto
  qed
  have disj: "\<forall>k\<in>{k0..<k1}. \<forall>k'\<in>{k0..<k1}. k \<noteq> k' \<longrightarrow> ?W k \<inter> ?W k' = {}"
    by (auto simp: toordinal_day_offset)
  have "(\<Sum>k\<in>{k0..<k1}. card (?W k)) = card (\<Union>k\<in>{k0..<k1}. ?W k)"
    using fin disj by (subst card_UN_disjoint) auto
  also have "\<dots> \<le> card {0..<m}"
    by (rule card_mono) auto
  finally show ?thesis by simp
qed


lemma day_loop_sizes:
  assumes run: "day_loop uuid now es subj bdy atts settings current_date max_daily_batches
       batches email_index daily_batches current_time = Inr (batches', email_index')"
    and b: "0 < emails_per_batch settings"
    and init: "\<forall>batch\<in>set batches. int (length (emails batch)) \<le> emails_per_batch settings"
  shows "\<forall>batch\<in>set batches'. int (length (emails batch)) \<le> emails_per_batch settings"
proof -
  let ?P = "\<lambda>bs (i::nat) (k::int) (t::int).
               \<forall>batch\<in>set bs. int (length (emails batch)) \<le> emails_per_batch settings"
  have "\<exists>k t. ?P batches' email_index' k t
          \<and> \<not> day_cond es settings current_date max_daily_batches batches' email_index' k"
  proof (rule day_loop_rule [where P = ?P, OF run])
    show "?P batches email_index daily_batches current_time" by (rule init)
  next
    fix bs :: "email_batch list" and i :: nat and k t :: int
    assume "?P bs i k t"
    then show "?P (bs @ [new_batch (uuid (length bs)) now
                      (py_slice es (int i) (int i + emails_per_batch settings))
                      subj bdy atts t k max_daily_batches])
                 (i + length (py_slice es (int i) (int i + emails_per_batch settings)))
                 (k + 1) (t + batch_interval_minutes settings * us_per_minute)"
      using length_py_slice_le [OF b, of es i] by (simp add: new_batch_def)
  qed
  then show ?thesis by blast
qed

lemma generate_loop_sizes:
  assumes run: "generate_loop uuid now es subj bdy atts settings start_hour start_minute
       batches email_index current_date = Inr result"
    and b: "0 < emails_per_batch settings"
    and init: "\<forall>batch\<in>set batches. int (length (emails batch)) \<le> emails_per_batch settings"
  shows "\<forall>batch\<in>set result. int (length (emails batch)) \<le> emails_per_batch settings"
proof -
  let ?P = "\<lambda>bs (i::nat) (c::int).
               \<forall>batch\<in>set bs. int (length (emails batch)) \<le> emails_per_batch settings"
  have "\<exists>i c. ?P result i c \<and> \<not> i < length es"
  proof (rule generate_loop_rule [where P = ?P, OF run])
    show "?P batches email_index current_date" by (rule init)
  next
    fix bs :: "email_batch list" and i :: nat and c :: int
    assume "?P bs i c"
    then show "?P bs i (c + us_per_day)" .
  next
    fix bs bs' :: "email_batch list" and i i' :: nat and c t :: int
    assume "?P bs i c"
      and "day_loop uuid now es subj bdy atts settings c
             (emails_per_day settings div emails_per_batch settings) bs i 0 t = Inr (bs', i')"
    then show "?P bs' i' (c + us_per_day)"
      using b by (blast intro: day_loop_sizes [rule_format])
  qed
  then show ?thesis by blast
qed

lemma generate_loop_day_total:
  assumes run: "generate_loop uuid now es subj bdy atts settings start_hour start_minute
       [] email_index current_date = Inr result"
    and b: "0 < emails_per_batch settings"
    and mid: "current_date mod us_per_day = 0"
  shows "int (length (emails_on_day result day)) \<le>
           emails_per_batch settings
           * int (nat (emails_per_day settings div emails_per_batch settings))"
proof -
  let ?m = "emails_per_day settings div emails_per_batch settings"
  let ?iv = "batch_interval_minutes settings * us_per_minute"
  let ?off = "start_hour * us_per_hour + start_minute * us_per_minute"
  let ?W = "\<lambda>k. {j. 0 \<le> j \<and> j < ?m
                 \<and> toordinal (k * us_per_day + (?off + j * ?iv)) = toordinal day}"
  let ?k0 = "toordinal current_date"
  let ?P = "\<lambda>bs (i::nat) c. c mod us_per_day = 0 \<and> ?k0 \<le> toordinal c
       \<and> int (length (emails_on_day bs day)) \<le>
            emails_per_batch settings * (\<Sum>k\<in>{?k0..<toordinal c}. int (card (?W k)))"
  have "\<exists>i c. ?P result i c \<and> \<not> i < length es"
  proof (rule generate_loop_rule [where P = ?P, OF run])
    show "?P [] email_index current_date"
      using mid by (simp add: emails_on_day_def)
  next
    fix bs :: "email_batch list" and i :: nat and c :: int
    assume P: "?P bs i c"
    have "(\<Sum>k\<in>{?k0..<toordinal c}. int (card (?W k)))
            \<le> (\<Sum>k\<in>{?k0..<toordinal c + 1}. int (card (?W k)))"
      by (rule sum_int_interval_mono) simp
    then have "emails_per_batch settings * (\<Sum>k\<in>{?k0..<toordinal c}. int (card (?W k)))
            \<le> emails_per_batch settings * (\<Sum>k\<in>{?k0..<toordinal c + 1}. int (card (?W k)))"
      using b by (simp add: mult_left_mono)
    with P show "?P bs i (c + us_per_day)"
      by (simp add: toordinal_add_day)
  next
    fix bs bs' :: "email_batch list" and i i' :: nat and c t :: int
    assume P: "?P bs i c"
      and rp: "replace_hour_minute c start_hour start_minute = Inr t"
      and dl: "day_loop uuid now es subj bdy atts settings c ?m bs i 0 t = Inr (bs', i')"
    from P have cm: "c mod us_per_day = 0" and k0: "?k0 \<le> toordinal c" by simp_all
    have t: "t = toordinal c * us_per_day + ?off"
      using rp cm by (rule replace_hour_minute_midnight)
    have "int (length (emails_on_day bs' day)) \<le> int (length (emails_on_day bs day))
            + emails_per_batch settings * int (card (?W (toordinal c)))"
      using day_loop_day_total [OF dl b, of day] by (simp add: t add.assoc)
    also have "\<dots> \<le> emails_per_batch settings * (\<Sum>k\<in>{?k0..<toordinal c}. int (card (?W k)))
            + emails_per_batch settings * int (card (?W (toordinal c)))"
      using P by simp
    also have "\<dots> = emails_per_batch settings
                      * (\<Sum>k\<in>{?k0..<toordinal c + 1}. int (card (?W k)))"
      unfolding sum_int_interval_Suc [OF k0] by (simp add: distrib_left)
    finally show "?P bs' i' (c + us_per_day)"
      using cm k0 by (simp add: toordinal_add_day)
  qed
  then obtain c where
    le: "int (length (emails_on_day result day)) \<le>
            emails_per_batch settings * (\<Sum>k\<in>{?k0..<toordinal c}. int (card (?W k)))"
    by blast
  have "int (\<Sum>k\<in>{?k0..<toordinal c}. card (?W k)) \<le> int (nat ?m)"
    using windows_sum_le [where ?k0.0 = ?k0 and ?k1.0 = "toordinal c" and m = ?m
            and x = ?off and iv = ?iv and D = "toordinal day"]
    by (simp only: of_nat_le_iff)
  then have "(\<Sum>k\<in>{?k0..<toordinal c}. int (card (?W k))) \<le> int (nat ?m)"
    by (simp only: of_nat_sum)
  then have "emails_per_batch settings * (\<Sum>k\<in>{?k0..<toordinal c}. int (card (?W k)))
          \<le> emails_per_batch settings * int (nat ?m)"
    using b by (simp add: mult_left_mono)
  with le show ?thesis by linarith
qed


text \<open>
  Claim C1. For settings with \<open>0 < emails_per_batch \<le> emails_per_day\<close>, every batch
  returned by \<open>_generate_batches\<close> has at most \<open>emails_per_batch\<close> recipients, and
  for every calendar day the recipients of all batches scheduled on that day number at
  most \<open>emails_per_day\<close>.
\<close>

theorem planner_respects_caps:
  assumes run: "generate_batches uuid now es subj bdy atts settings = Inr batches"
    and b: "0 < emails_per_batch settings"
    and cap: "emails_per_batch settings \<le> emails_per_day settings"
  shows "(\<forall>batch\<in>set batches. int (length (emails batch)) \<le> emails_per_batch settings)
       \<and> (\<forall>day. int (length (emails_on_day batches day)) \<le> emails_per_day settings)"
proof -
  from run obtain current_date start_hour start_minute where
    nd: "get_next_working_day now = Inr current_date" and
    gl: "generate_loop uuid now es subj bdy atts settings start_hour start_minute
           [] 0 current_date = Inr batches"
    by (auto simp: generate_batches_def split: sum.splits prod.splits)
  have sizes: "\<forall>batch\<in>set batches. int (length (emails batch)) \<le> emails_per_batch settings"
    using gl b by (rule generate_loop_sizes) simp
  have mid: "current_date mod us_per_day = 0"
    using nd by (rule get_next_working_day_result)
  have m: "emails_per_batch settings
             * int (nat (emails_per_day settings div emails_per_batch settings))
           \<le> emails_per_day settings"
  proof -
    from b cap have "0 \<le> emails_per_day settings div emails_per_batch settings"
      by (simp add: pos_imp_zdiv_nonneg_iff)
    moreover have "emails_per_batch settings
                     * (emails_per_day settings div emails_per_batch settings)
                   \<le> emails_per_day settings"
    proof -
      have "emails_per_day settings =
          emails_per_batch settings * (emails_per_day settings div emails_per_batch settings)
          + emails_per_day settings mod emails_per_batch settings"
        by simp
      moreover have "0 \<le> emails_per_day settings mod emails_per_batch settings"
        using b by simp
      ultimately show ?thesis by linarith
    qed
    ultimately show ?thesis by simp
  qed
  have "\<forall>day. int (length (emails_on_day batches day)) \<le> emails_per_day settings"
  proof
    fix day
    from generate_loop_day_total [OF gl b mid, of day] m
    show "int (length (emails_on_day batches day)) \<le> emails_per_day settings"
      by linarith
  qed
  with sizes show ?thesis by blast
qed

theorem planner_respects_caps_witness:
  "\<not> isl (generate_batches demo_uuid demo_now (replicate 25 ''a'') ''s'' ''b'' [] demo_settings)
   \<and> 0 < emails_per_batch demo_settings
   \<and> emails_per_batch demo_settings \<le> emails_per_day demo_settings
   \<and> list_all (\<lambda>batch. int (length (emails batch)) \<le> emails_per_batch demo_settings)
         (projr (generate_batches demo_uuid demo_now (replicate 25 ''a'')
            ''s'' ''b'' [] demo_settings))
   \<and> (\<forall>day. int (length (emails_on_day (projr (generate_batches demo_uuid demo_now
            (replicate 25 ''a'') ''s'' ''b'' [] demo_settings)) day))
          \<le> emails_per_day demo_settings)"
proof -
  have r: "\<not> isl (generate_batches demo_uuid demo_now (replicate 25 ''a'') ''s'' ''b'' []
             demo_settings)"
    by code_simp
  then obtain bs where
    bs: "generate_batches demo_uuid demo_now (replicate 25 ''a'') ''s'' ''b'' [] demo_settings
           = Inr bs"
    by (cases "generate_batches demo_uuid demo_now (replicate 25 ''a'') ''s'' ''b'' []
                 demo_settings") auto
  have p: "0 < emails_per_batch demo_settings"
    and q: "emails_per_batch demo_settings \<le> emails_per_day demo_settings"
    by (simp_all add: demo_settings_def)
  from planner_respects_caps [OF bs p q] r p q bs show ?thesis
    by (simp add: list_all_iff)
qed


section \<open>The planner on the 25-recipient example\<close>

text \<open>
  First the anchor day: \<open>_get_next_working_day\<close> returns whenever three more days
  fit into the calendar, since at most a Saturday and a Sunday are skipped.
\<close>

lemma py_slice_nonneg:
  assumes "0 \<le> a" and "a \<le> c"
  shows "py_slice xs a c = take (nat c - nat a) (drop (nat a) xs)"
proof (cases "nat a \<le> length xs")
  case True
  with assms show ?thesis
    by (auto simp: py_slice_def py_clip_def min_def)
next
  case False
  with assms show ?thesis
    by (simp add: py_slice_def py_clip_def)
qed

lemma weekday_add_day: "weekday (t + us_per_day) = (weekday t + 1) mod 7"
  unfolding weekday_def toordinal_add_day by presburger

lemma weekday_range: "0 \<le> weekday t \<and> weekday t < 7"
  by (simp add: weekday_def)

lemma dt_add_day_ok:
  "1 \<le> toordinal t \<Longrightarrow> toordinal t + 1 \<le> MAXORDINAL \<Longrightarrow> t' = t + us_per_day
   \<Longrightarrow> dt_add t us_per_day = Inr t'"
  by (simp add: dt_add_def toordinal_add_day)

lemma skip_weekend_weekday: "weekday t < 5 \<Longrightarrow> skip_weekend t = Inr t"
  by (subst skip_weekend.simps) simp

lemma skip_weekend_weekend:
  "5 \<le> weekday t \<Longrightarrow> dt_add t us_per_day = Inr t' \<Longrightarrow> skip_weekend t = skip_weekend t'"
  by (subst skip_weekend.simps) (simp add: timedelta_days_one)

lemma skip_weekend_returns:
  assumes lo: "1 \<le> toordinal t" and hi: "toordinal t + 2 \<le> MAXORDINAL"
  shows "\<exists>d. skip_weekend t = Inr d \<and> toordinal d \<le> toordinal t + 2"
proof -
  define t1 where "t1 = t + us_per_day"
  define t2 where "t2 = t1 + us_per_day"
  have o1: "toordinal t1 = toordinal t + 1" and o2: "toordinal t2 = toordinal t + 2"
    unfolding t2_def t1_def toordinal_add_day by simp_all
  have a1: "dt_add t us_per_day = Inr t1"
    using lo hi by (intro dt_add_day_ok) (simp_all add: t1_def)
  have a2: "dt_add t1 us_per_day = Inr t2"
    using lo hi o1 by (intro dt_add_day_ok) (simp_all add: t2_def)
  have w1: "weekday t1 = (weekday t + 1) mod 7"
    and w2: "weekday t2 = (weekday t1 + 1) mod 7"
    unfolding t2_def t1_def by (rule weekday_add_day)+
  from weekday_range [of t]
  consider "weekday t < 5" | "weekday t = 5" | "weekday t = 6" by linarith
  then show ?thesis
  proof cases
    case 1
    then show ?thesis by (simp add: skip_weekend_weekday)
  next
    case 2
    then have "weekday t1 = 6" and "weekday t2 = 0" using w1 w2 by simp_all
    then have "skip_weekend t = Inr t2"
      using 2 a1 a2 by (simp add: skip_weekend_weekend skip_weekend_weekday)
    then show ?thesis by (simp add: o2)
  next
    case 3
    then have "weekday t1 = 0" using w1 by simp
    then have "skip_weekend t = Inr t1"
      using 3 a1 by (simp add: skip_weekend_weekend skip_weekend_weekday)
    then show ?thesis by (simp add: o1)
  qed
qed

lemma get_next_working_day_returns:
  assumes lo: "1 \<le> toordinal now" and hi: "toordinal now + 3 \<le> MAXORDINAL"
  shows "\<exists>d. get_next_working_day now = Inr d \<and> toordinal d \<le> toordinal now + 3"
proof -
  have o: "toordinal (replace_midnight now + us_per_day) = toordinal now + 1"
    by (simp add: replace_midnight_def toordinal_def us_per_day_def)
  have a: "dt_add (replace_midnight now) us_per_day = Inr (replace_midnight now + us_per_day)"
    using lo hi by (simp add: dt_add_def o)
  from skip_weekend_returns [of "replace_midnight now + us_per_day"] lo hi o
  obtain d where "skip_weekend (replace_midnight now + us_per_day) = Inr d"
    and "toordinal d \<le> toordinal now + 3"
    by auto
  then show ?thesis
    by (simp add: get_next_working_day_def timedelta_days_one a)
qed



lemma toordinal_same_day:
  assumes "c mod us_per_day = 0" and "0 \<le> x" and "x < us_per_day"
  shows "toordinal (c + x) = toordinal c"
proof -
  have "c = toordinal c * us_per_day" using assms(1) by (rule midnight_eq)
  then have "toordinal (c + x) = toordinal c + toordinal x"
    using toordinal_day_offset [of "toordinal c" x] by simp
  moreover have "toordinal x = 0"
    using assms(2,3) by (simp add: toordinal_def)
  ultimately show ?thesis by simp
qed

lemma replace_hour_minute_ok:
  assumes "c mod us_per_day = 0" and "0 \<le> h" "h \<le> 23" "0 \<le> m" "m \<le> 59"
    and "t = c + (h * us_per_hour + m * us_per_minute)"
  shows "replace_hour_minute c h m = Inr t"
  using assms midnight_eq [OF assms(1)] midnight_mod_minute [OF assms(1)]
  by (simp add: replace_hour_minute_def)

lemma dt_add_ok:
  "1 \<le> toordinal t' \<Longrightarrow> toordinal t' \<le> MAXORDINAL \<Longrightarrow> t' = t + d \<Longrightarrow> dt_add t d = Inr t'"
  by (simp add: dt_add_def)

lemma day_loop_step_ok:
  assumes "day_cond es settings current_date max_daily_batches batches email_index daily_batches"
    and "timedelta_minutes (batch_interval_minutes settings) = Inr d"
    and "dt_add current_time d = Inr current_time'"
  shows "day_loop uuid now es subj bdy atts settings current_date max_daily_batches
           batches email_index daily_batches current_time =
         day_loop uuid now es subj bdy atts settings current_date max_daily_batches
           (batches @ [new_batch (uuid (length batches)) now
              (py_slice es (int email_index) (int email_index + emails_per_batch settings))
              subj bdy atts current_time daily_batches max_daily_batches])
           (email_index + length (py_slice es (int email_index)
              (int email_index + emails_per_batch settings)))
           (daily_batches + 1) current_time'"
  using assms by (simp add: day_loop_step)

lemma generate_loop_day_ok:
  assumes "email_index < length es"
    and "\<not> (working_days_only settings \<and> weekday current_date \<ge> 5)"
    and "emails_per_batch settings \<noteq> 0"
    and "replace_hour_minute current_date start_hour start_minute = Inr current_time"
    and "day_loop uuid now es subj bdy atts settings current_date
           (emails_per_day settings div emails_per_batch settings)
           batches email_index 0 current_time = Inr (batches', email_index')"
    and "dt_add current_date us_per_day = Inr current_date'"
  shows "generate_loop uuid now es subj bdy atts settings start_hour start_minute
           batches email_index current_date =
         generate_loop uuid now es subj bdy atts settings start_hour start_minute
           batches' email_index' current_date'"
  using assms by (simp add: generate_loop_day)

lemma demo_loop:
  assumes mid: "c1 mod us_per_day = 0"
    and lo: "1 \<le> toordinal c1" and hi: "toordinal c1 + 3 \<le> MAXORDINAL"
    and len: "length es = 25"
    and s: "emails_per_day settings = 10" "emails_per_batch settings = 5"
       "batch_interval_minutes settings = 5" "\<not> working_days_only settings"
  shows "generate_loop uuid now es subj bdy atts settings 9 0 [] 0 c1 =
     Inr [new_batch (uuid 0) now (take 5 es) subj bdy atts
            (c1 + 9 * us_per_hour) 0 2,
          new_batch (uuid 1) now (take 5 (drop 5 es)) subj bdy atts
            (c1 + 9 * us_per_hour + 5 * us_per_minute) 1 2,
          new_batch (uuid 2) now (take 5 (drop 10 es)) subj bdy atts
            (c1 + us_per_day + 9 * us_per_hour) 0 2,
          new_batch (uuid 3) now (take 5 (drop 15 es)) subj bdy atts
            (c1 + us_per_day + 9 * us_per_hour + 5 * us_per_minute) 1 2,
          new_batch (uuid 4) now (take 5 (drop 20 es)) subj bdy atts
            (c1 + us_per_day + us_per_day + 9 * us_per_hour) 0 2]"
proof -
  define c2 where "c2 = c1 + us_per_day"
  define c3 where "c3 = c2 + us_per_day"
  define c4 where "c4 = c3 + us_per_day"
  define t11 where "t11 = c1 + 9 * us_per_hour"
  define t12 where "t12 = t11 + 5 * us_per_minute"
  define t13 where "t13 = t12 + 5 * us_per_minute"
  define t21 where "t21 = c2 + 9 * us_per_hour"
  define t22 where "t22 = t21 + 5 * us_per_minute"
  define t23 where "t23 = t22 + 5 * us_per_minute"
  define t31 where "t31 = c3 + 9 * us_per_hour"
  define t32 where "t32 = t31 + 5 * us_per_minute"
  define b1 where "b1 = new_batch (uuid 0) now (take 5 es) subj bdy atts t11 0 2"
  define b2 where "b2 = new_batch (uuid 1) now (take 5 (drop 5 es)) subj bdy atts t12 1 2"
  define b3 where "b3 = new_batch (uuid 2) now (take 5 (drop 10 es)) subj bdy atts t21 0 2"
  define b4 where "b4 = new_batch (uuid 3) now (take 5 (drop 15 es)) subj bdy atts t22 1 2"
  define b5 where "b5 = new_batch (uuid 4) now (take 5 (drop 20 es)) subj bdy atts t31 0 2"
  have m2: "c2 mod us_per_day = 0" and m3: "c3 mod us_per_day = 0"
    using mid by (simp_all add: c2_def c3_def)
  have oc: "toordinal c2 = toordinal c1 + 1" "toordinal c3 = toordinal c1 + 2"
    "toordinal c4 = toordinal c1 + 3"
    unfolding c4_def c3_def c2_def toordinal_add_day by simp_all
  have ot1: "toordinal t11 = toordinal c1" "toordinal t12 = toordinal c1"
    "toordinal t13 = toordinal c1"
    unfolding t13_def t12_def t11_def add.assoc
    by (rule toordinal_same_day [OF mid];
        simp add: us_per_hour_def us_per_minute_def us_per_day_def)+
  have ot2: "toordinal t21 = toordinal c2" "toordinal t22 = toordinal c2"
    "toordinal t23 = toordinal c2"
    unfolding t23_def t22_def t21_def add.assoc
    by (rule toordinal_same_day [OF m2];
        simp add: us_per_hour_def us_per_minute_def us_per_day_def)+
  have ot3: "toordinal t31 = toordinal c3" "toordinal t32 = toordinal c3"
    unfolding t32_def t31_def add.assoc
    by (rule toordinal_same_day [OF m3];
        simp add: us_per_hour_def us_per_minute_def us_per_day_def)+
  have td: "timedelta_minutes (batch_interval_minutes settings) = Inr (5 * us_per_minute)"
    by (simp add: s timedelta_minutes_def)
  have add1: "dt_add t11 (5 * us_per_minute) = Inr t12"
    "dt_add t12 (5 * us_per_minute) = Inr t13"
    by (rule dt_add_ok [OF _ _ t12_def], use lo hi in \<open>simp_all add: ot1\<close>)
       (rule dt_add_ok [OF _ _ t13_def], use lo hi in \<open>simp_all add: ot1\<close>)
  have add2: "dt_add t21 (5 * us_per_minute) = Inr t22"
    "dt_add t22 (5 * us_per_minute) = Inr t23"
    by (rule dt_add_ok [OF _ _ t22_def], use lo hi in \<open>simp_all add: ot2 oc\<close>)
       (rule dt_add_ok [OF _ _ t23_def], use lo hi in \<open>simp_all add: ot2 oc\<close>)
  have add3: "dt_add t31 (5 * us_per_minute) = Inr t32"
    by (rule dt_add_ok [OF _ _ t32_def], use lo hi in \<open>simp_all add: ot3 oc\<close>)
  have addc: "dt_add c1 us_per_day = Inr c2" "dt_add c2 us_per_day = Inr c3"
    "dt_add c3 us_per_day = Inr c4"
    by (rule dt_add_ok [OF _ _ c2_def], use lo hi in \<open>simp_all add: oc\<close>)
       (rule dt_add_ok [OF _ _ c3_def], use lo hi in \<open>simp_all add: oc\<close>,
        rule dt_add_ok [OF _ _ c4_def], use lo hi in \<open>simp_all add: oc\<close>)
  have rp: "replace_hour_minute c1 9 0 = Inr t11" "replace_hour_minute c2 9 0 = Inr t21"
    "replace_hour_minute c3 9 0 = Inr t31"
    using mid m2 m3 by (auto intro!: replace_hour_minute_ok simp: t11_def t21_def t31_def)
  have sl: "py_slice es 0 5 = take 5 es" "py_slice es 5 10 = take 5 (drop 5 es)"
    "py_slice es 10 15 = take 5 (drop 10 es)" "py_slice es 15 20 = take 5 (drop 15 es)"
    "py_slice es 20 25 = take 5 (drop 20 es)"
    by (simp_all add: py_slice_nonneg)
  have d1: "day_loop uuid now es subj bdy atts settings c1 2 [] 0 0 t11 = Inr ([b1, b2], 10)"
    apply (subst day_loop_step_ok [OF _ td add1(1)])
     apply (simp add: day_cond_def len s emails_on_day_def)
    apply (subst day_loop_step_ok [OF _ td add1(2)])
     apply (simp add: day_cond_def len s emails_on_day_def new_batch_def sl ot1)
    apply (subst day_loop_stop)
     apply (simp add: day_cond_def)
    apply (simp add: s sl len b1_def b2_def)
    done
  have d2: "day_loop uuid now es subj bdy atts settings c2 2 [b1, b2] 10 0 t21
              = Inr ([b1, b2, b3, b4], 20)"
    apply (subst day_loop_step_ok [OF _ td add2(1)])
     apply (simp add: day_cond_def len s emails_on_day_def b1_def b2_def new_batch_def ot1 oc)
    apply (subst day_loop_step_ok [OF _ td add2(2)])
     apply (simp add: day_cond_def len s emails_on_day_def b1_def b2_def new_batch_def sl
              ot1 ot2 oc)
    apply (subst day_loop_stop)
     apply (simp add: day_cond_def)
    apply (simp add: s sl len b3_def b4_def eval_nat_numeral)
    done
  have d3: "day_loop uuid now es subj bdy atts settings c3 2 [b1, b2, b3, b4] 20 0 t31
              = Inr ([b1, b2, b3, b4, b5], 25)"
    apply (subst day_loop_step_ok [OF _ td add3])
     apply (simp add: day_cond_def len s emails_on_day_def b1_def b2_def b3_def b4_def
              new_batch_def ot1 ot2 oc)
    apply (subst day_loop_stop)
     apply (simp add: day_cond_def len sl s)
    apply (simp add: s sl len b5_def eval_nat_numeral)
    done
  have "generate_loop uuid now es subj bdy atts settings 9 0 [] 0 c1 =
          generate_loop uuid now es subj bdy atts settings 9 0 [b1, b2] 10 c2"
    by (rule generate_loop_day_ok [OF _ _ _ rp(1) _ addc(1)]) (simp_all add: len s d1)
  also have "\<dots> = generate_loop uuid now es subj bdy atts settings 9 0 [b1, b2, b3, b4] 20 c3"
    by (rule generate_loop_day_ok [OF _ _ _ rp(2) _ addc(2)]) (simp_all add: len s d2)
  also have "\<dots> = generate_loop uuid now es subj bdy atts settings 9 0
                      [b1, b2, b3, b4, b5] 25 c4"
    by (rule generate_loop_day_ok [OF _ _ _ rp(3) _ addc(3)]) (simp_all add: len s d3)
  also have "\<dots> = Inr [b1, b2, b3, b4, b5]"
    by (rule generate_loop_done) (simp add: len)
  finally show ?thesis
    by (simp add: b1_def b2_def b3_def b4_def b5_def t11_def t12_def t21_def t22_def t31_def
          c2_def c3_def)
qed

text \<open>
  Claim C3. For 25 recipients, \<open>emails_per_day = 10\<close>, \<open>emails_per_batch = 5\<close>,
  \<open>start_time = "09:00"\<close>, an interval of 5 minutes and \<open>working_days_only\<close> off,
  the planner returns exactly five batches of five recipients: at 09:00 and 09:05 of the
  anchor day, at 09:00 and 09:05 of the next day, and at 09:00 of the day after. This
  holds for every current time that leaves six more days in the calendar.
\<close>

theorem planner_example_25_recipients:
  assumes lo: "1 \<le> toordinal now" and hi: "toordinal now + 6 \<le> MAXORDINAL"
    and len: "length es = 25"
    and s: "emails_per_day settings = 10" "emails_per_batch settings = 5"
       "batch_interval_minutes settings = 5" "\<not> working_days_only settings"
    and st: "start_time settings = ''09:00''"
  shows "\<exists>day1 batches.
           get_next_working_day now = Inr day1 \<and> day1 mod us_per_day = 0
         \<and> generate_batches uuid now es subj bdy atts settings = Inr batches
         \<and> map (\<lambda>batch. (length (emails batch), scheduled_time batch)) batches =
             [(5, day1 + 9 * us_per_hour),
              (5, day1 + 9 * us_per_hour + 5 * us_per_minute),
              (5, day1 + us_per_day + 9 * us_per_hour),
              (5, day1 + us_per_day + 9 * us_per_hour + 5 * us_per_minute),
              (5, day1 + us_per_day + us_per_day + 9 * us_per_hour)]"
proof -
  from get_next_working_day_returns [of now] lo hi obtain day1 where
    nd: "get_next_working_day now = Inr day1" and up: "toordinal day1 \<le> toordinal now + 3"
    by auto
  have mid: "day1 mod us_per_day = 0"
    and after: "toordinal now < toordinal day1"
    using get_next_working_day_result [OF nd] by simp_all
  have lo1: "1 \<le> toordinal day1" and hi1: "toordinal day1 + 3 \<le> MAXORDINAL"
    using lo hi up after by simp_all
  have ps: "parse_start_time ''09:00'' = Inr (9, 0)"
    by code_simp
  have "generate_batches uuid now es subj bdy atts settings =
          generate_loop uuid now es subj bdy atts settings 9 0 [] 0 day1"
    by (simp add: generate_batches_def nd st ps)
  then show ?thesis
    using nd mid len
    by (simp add: demo_loop [OF mid lo1 hi1 len s] new_batch_def)
qed

theorem planner_example_25_recipients_witness:
  "1 \<le> toordinal demo_now \<and> toordinal demo_now + 6 \<le> MAXORDINAL
   \<and> length (replicate 25 ''a'') = 25
   \<and> emails_per_day demo_settings = 10 \<and> emails_per_batch demo_settings = 5
   \<and> batch_interval_minutes demo_settings = 5 \<and> \<not> working_days_only demo_settings
   \<and> start_time demo_settings = ''09:00''
   \<and> (\<exists>day1 batches.
           get_next_working_day demo_now = Inr day1 \<and> day1 mod us_per_day = 0
         \<and> generate_batches demo_uuid demo_now (replicate 25 ''a'') ''s'' ''b'' []
               demo_settings = Inr batches
         \<and> map (\<lambda>batch. (length (emails batch), scheduled_time batch)) batches =
             [(5, day1 + 9 * us_per_hour),
              (5, day1 + 9 * us_per_hour + 5 * us_per_minute),
              (5, day1 + us_per_day + 9 * us_per_hour),
              (5, day1 + us_per_day + 9 * us_per_hour + 5 * us_per_minute),
              (5, day1 + us_per_day + us_per_day + 9 * us_per_hour)])"
proof -
  have h: "1 \<le> toordinal demo_now" "toordinal demo_now + 6 \<le> MAXORDINAL"
    "length (replicate 25 ''a'') = 25"
    "emails_per_day demo_settings = 10" "emails_per_batch demo_settings = 5"
    "batch_interval_minutes demo_settings = 5" "\<not> working_days_only demo_settings"
    "start_time demo_settings = ''09:00''"
    by (simp_all add: demo_now_def demo_settings_def toordinal_def us_per_day_def
          MAXORDINAL_def)
  from planner_example_25_recipients [OF h, of demo_uuid "''s''" "''b''" "[]"] h
  show ?thesis by blast
qed


section \<open>The first scheduled day\<close>

lemma toordinal_replace:
  assumes "replace_hour_minute c h m = Inr t"
  shows "toordinal t = toordinal c"
proof -
  from assms have hm: "0 \<le> h" "h \<le> 23" "0 \<le> m" "m \<le> 59"
    and t: "t = toordinal c * us_per_day + (h * us_per_hour + m * us_per_minute
                + c mod us_per_minute)"
    by (auto simp: replace_hour_minute_def split: if_splits)
  have "0 \<le> c mod us_per_minute" "c mod us_per_minute < us_per_minute"
    by (simp_all add: us_per_minute_def)
  with hm have "0 \<le> h * us_per_hour + m * us_per_minute + c mod us_per_minute"
    and "h * us_per_hour + m * us_per_minute + c mod us_per_minute < us_per_day"
    by (simp_all add: us_per_hour_def us_per_minute_def us_per_day_def)
  then have "toordinal (h * us_per_hour + m * us_per_minute + c mod us_per_minute) = 0"
    by (simp add: toordinal_def)
  then show ?thesis
    unfolding t toordinal_day_offset by simp
qed

lemma weekday_cong: "toordinal t = toordinal t' \<Longrightarrow> weekday t = weekday t'"
  by (simp add: weekday_def)

lemma toordinal_mono: "t \<le> t' \<Longrightarrow> toordinal t \<le> toordinal t'"
  by (simp add: toordinal_def us_per_day_def zdiv_mono1)

lemma day_loop_prefix:
  assumes run: "day_loop uuid now es subj bdy atts settings current_date max_daily_batches
       batches email_index daily_batches current_time = Inr (batches', email_index')"
  shows "\<exists>xs. batches' = batches @ xs"
proof -
  let ?P = "\<lambda>bs (i::nat) (k::int) (t::int). \<exists>xs. bs = batches @ xs"
  have "\<exists>k t. ?P batches' email_index' k t
          \<and> \<not> day_cond es settings current_date max_daily_batches batches' email_index' k"
    by (rule day_loop_rule [where P = ?P, OF run]) auto
  then show ?thesis by blast
qed

lemma day_loop_first:
  assumes run: "day_loop uuid now es subj bdy atts settings current_date max_daily_batches
       batches email_index daily_batches current_time = Inr (batches', email_index')"
    and c: "day_cond es settings current_date max_daily_batches batches email_index
              daily_batches"
  shows "\<exists>b xs. batches' = batches @ b # xs \<and> scheduled_time b = current_time"
proof -
  from run obtain d current_time' where
    "day_loop uuid now es subj bdy atts settings current_date max_daily_batches
       (batches @ [new_batch (uuid (length batches)) now
          (py_slice es (int email_index) (int email_index + emails_per_batch settings))
          subj bdy atts current_time daily_batches max_daily_batches])
       (email_index + length (py_slice es (int email_index)
          (int email_index + emails_per_batch settings)))
       (daily_batches + 1) current_time' = Inr (batches', email_index')"
    by (auto simp: day_loop_step [OF c] split: sum.splits)
  from day_loop_prefix [OF this] show ?thesis
    by (auto simp: new_batch_def)
qed

lemma day_loop_not_before:
  assumes run: "day_loop uuid now es subj bdy atts settings current_date max_daily_batches
       batches email_index daily_batches current_time = Inr (batches', email_index')"
    and iv: "0 \<le> batch_interval_minutes settings"
    and t: "lb \<le> toordinal current_time"
    and init: "\<forall>b\<in>set batches. lb \<le> toordinal (scheduled_time b)"
  shows "\<forall>b\<in>set batches'. lb \<le> toordinal (scheduled_time b)"
proof -
  let ?P = "\<lambda>bs (i::nat) (k::int) t.
              lb \<le> toordinal t \<and> (\<forall>b\<in>set bs. lb \<le> toordinal (scheduled_time b))"
  have "\<exists>k t. ?P batches' email_index' k t
          \<and> \<not> day_cond es settings current_date max_daily_batches batches' email_index' k"
  proof (rule day_loop_rule [where P = ?P, OF run])
    show "?P batches email_index daily_batches current_time" using t init by simp
  next
    fix bs :: "email_batch list" and i :: nat and k t :: int
    assume P: "?P bs i k t"
    have "0 \<le> batch_interval_minutes settings * us_per_minute"
      using iv by (simp add: us_per_minute_def)
    then have "toordinal t \<le> toordinal (t + batch_interval_minutes settings * us_per_minute)"
      by (intro toordinal_mono) simp
    with P show "?P (bs @ [new_batch (uuid (length bs)) now
                      (py_slice es (int i) (int i + emails_per_batch settings))
                      subj bdy atts t k max_daily_batches])
                 (i + length (py_slice es (int i) (int i + emails_per_batch settings)))
                 (k + 1) (t + batch_interval_minutes settings * us_per_minute)"
      by (auto simp: new_batch_def)
  qed
  then show ?thesis by blast
qed

lemma generate_loop_first_day:
  assumes run: "generate_loop uuid now es subj bdy atts settings start_hour start_minute
       [] email_index current_date = Inr result"
    and wd: "weekday current_date < 5"
    and ne: "result \<noteq> []"
  shows "toordinal (scheduled_time (hd result)) = toordinal current_date"
proof -
  let ?m = "emails_per_day settings div emails_per_batch settings"
  let ?G = "0 < ?m \<and> 0 < emails_per_day settings"
  let ?P = "\<lambda>bs (i::nat) c.
       (bs = [] \<and> (c = current_date \<or> \<not> ?G))
     \<or> (bs \<noteq> [] \<and> toordinal (scheduled_time (hd bs)) = toordinal current_date)"
  have "\<exists>i c. ?P result i c \<and> \<not> i < length es"
  proof (rule generate_loop_rule [where P = ?P, OF run])
    show "?P [] email_index current_date" by simp
  next
    fix bs :: "email_batch list" and i :: nat and c :: int
    assume "?P bs i c" and "weekday c \<ge> 5"
    with wd show "?P bs i (c + us_per_day)" by auto
  next
    fix bs bs' :: "email_batch list" and i i' :: nat and c t :: int
    assume P: "?P bs i c" and i: "i < length es"
      and rp: "replace_hour_minute c start_hour start_minute = Inr t"
      and dl: "day_loop uuid now es subj bdy atts settings c ?m bs i 0 t = Inr (bs', i')"
    show "?P bs' i' (c + us_per_day)"
    proof (cases "bs = []")
      case False
      with P have "toordinal (scheduled_time (hd bs)) = toordinal current_date" by simp
      moreover from day_loop_prefix [OF dl] False have "bs' \<noteq> []" "hd bs' = hd bs"
        by auto
      ultimately show ?thesis by simp
    next
      case True
      show ?thesis
      proof (cases "day_cond es settings c ?m [] i 0")
        case c: True
        then have "?G" by (simp add: day_cond_def emails_on_day_def)
        with P True have "c = current_date" by simp
        moreover from day_loop_first [OF dl [unfolded True] c]
        have "bs' \<noteq> []" "scheduled_time (hd bs') = t" by auto
        ultimately show ?thesis using toordinal_replace [OF rp] by simp
      next
        case c: False
        with i have "\<not> ?G" by (simp add: day_cond_def emails_on_day_def)
        moreover from dl c True have "bs' = []" by (simp add: day_loop_stop)
        ultimately show ?thesis by simp
      qed
    qed
  qed
  with ne show ?thesis by auto
qed

lemma generate_loop_not_before:
  assumes run: "generate_loop uuid now es subj bdy atts settings start_hour start_minute
       [] email_index current_date = Inr result"
    and iv: "0 \<le> batch_interval_minutes settings"
  shows "\<forall>b\<in>set result. toordinal current_date \<le> toordinal (scheduled_time b)"
proof -
  let ?lb = "toordinal current_date"
  let ?P = "\<lambda>bs (i::nat) c.
       ?lb \<le> toordinal c \<and> (\<forall>b\<in>set bs. ?lb \<le> toordinal (scheduled_time b))"
  have "\<exists>i c. ?P result i c \<and> \<not> i < length es"
  proof (rule generate_loop_rule [where P = ?P, OF run])
    show "?P [] email_index current_date" by simp
  next
    fix bs :: "email_batch list" and i :: nat and c :: int
    assume "?P bs i c"
    then show "?P bs i (c + us_per_day)" by (simp add: toordinal_add_day)
  next
    fix bs bs' :: "email_batch list" and i i' :: nat and c t :: int
    assume P: "?P bs i c"
      and rp: "replace_hour_minute c start_hour start_minute = Inr t"
      and dl: "day_loop uuid now es subj bdy atts settings c
                 (emails_per_day settings div emails_per_batch settings) bs i 0 t
               = Inr (bs', i')"
    from P toordinal_replace [OF rp] have "?lb \<le> toordinal t" by simp
    from day_loop_not_before [OF dl iv this] P
    show "?P bs' i' (c + us_per_day)" by (simp add: toordinal_add_day)
  qed
  then show ?thesis by blast
qed


text \<open>
  Claim C9 speaks of every settings. The dataclass puts no sign on
  \<open>batch_interval_minutes\<close> and the planner does not test it: with a negative
  interval the later batches of a day are scheduled before its first batch. Planned on a
  Friday with \<open>working_days_only\<close> off, \<open>start_time = "00:00"\<close> and an interval of
  minus five minutes, the first batch is created for Monday (weekday 0, ordinal 739929)
  at 00:00 and the second is scheduled on the Sunday before (weekday 6, ordinal 739928),
  so the first day with a batch is a Sunday.
\<close>

theorem negative_interval_counterexample:
  "batch_interval_minutes backwards_settings = - 5
   \<and> \<not> working_days_only backwards_settings
   \<and> \<not> isl (generate_batches demo_uuid friday_now (replicate 10 ''a'') ''s'' ''b'' []
               backwards_settings)
   \<and> map (\<lambda>batch. (weekday (scheduled_time batch), toordinal (scheduled_time batch)))
        (projr (generate_batches demo_uuid friday_now (replicate 10 ''a'') ''s'' ''b'' []
                  backwards_settings))
       = [(0, 739929), (6, 739928)]"
  by code_simp

text \<open>
  Claim C9, amended. Whatever the settings, and whether or not \<open>working_days_only\<close>
  is set, the first batch the planner creates is scheduled on the day computed by
  \<open>_get_next_working_day\<close>, which is a weekday (\<open>weekday\<close> below 5, Monday to
  Friday). With a non-negative batch interval no batch is scheduled on an earlier day,
  so this weekday is the first day of the plan.
\<close>

theorem first_scheduled_day_is_weekday:
  assumes run: "generate_batches uuid now es subj bdy atts settings = Inr batches"
    and ne: "batches \<noteq> []"
  shows "\<exists>day1. get_next_working_day now = Inr day1
           \<and> toordinal (scheduled_time (hd batches)) = toordinal day1
           \<and> weekday (scheduled_time (hd batches)) < 5
           \<and> (0 \<le> batch_interval_minutes settings \<longrightarrow>
                (\<forall>batch\<in>set batches. toordinal day1 \<le> toordinal (scheduled_time batch)))"
proof -
  from run obtain day1 start_hour start_minute where
    nd: "get_next_working_day now = Inr day1" and
    gl: "generate_loop uuid now es subj bdy atts settings start_hour start_minute
           [] 0 day1 = Inr batches"
    by (auto simp: generate_batches_def split: sum.splits prod.splits)
  have wd: "weekday day1 < 5" using nd by (rule get_next_working_day_result)
  have first: "toordinal (scheduled_time (hd batches)) = toordinal day1"
    using gl wd ne by (rule generate_loop_first_day)
  then have "weekday (scheduled_time (hd batches)) < 5"
    using wd weekday_cong [OF first] by simp
  with nd first generate_loop_not_before [OF gl] show ?thesis by blast
qed

theorem first_scheduled_day_is_weekday_witness:
  "\<not> isl (generate_batches demo_uuid friday_now (replicate 25 ''a'') ''s'' ''b'' []
            demo_settings)
   \<and> projr (generate_batches demo_uuid friday_now (replicate 25 ''a'') ''s'' ''b'' []
         demo_settings) \<noteq> []
   \<and> \<not> working_days_only demo_settings
   \<and> weekday friday_now = 4
   \<and> (\<exists>day1. get_next_working_day friday_now = Inr day1
         \<and> toordinal day1 = toordinal friday_now + 3
         \<and> toordinal (scheduled_time (hd (projr (generate_batches demo_uuid friday_now
               (replicate 25 ''a'') ''s'' ''b'' [] demo_settings)))) = toordinal day1
         \<and> weekday (scheduled_time (hd (projr (generate_batches demo_uuid friday_now
               (replicate 25 ''a'') ''s'' ''b'' [] demo_settings)))) < 5
         \<and> 0 \<le> batch_interval_minutes demo_settings
         \<and> list_all (\<lambda>batch. toordinal day1 \<le> toordinal (scheduled_time batch))
               (projr (generate_batches demo_uuid friday_now
                  (replicate 25 ''a'') ''s'' ''b'' [] demo_settings)))"
proof -
  have r: "\<not> isl (generate_batches demo_uuid friday_now (replicate 25 ''a'') ''s'' ''b'' []
             demo_settings)"
    and n: "projr (generate_batches demo_uuid friday_now (replicate 25 ''a'') ''s'' ''b'' []
              demo_settings) \<noteq> []"
    and f: "weekday friday_now = 4"
    and a: "get_next_working_day friday_now = Inr (739929 * us_per_day)"
    and o: "toordinal (739929 * us_per_day) = toordinal friday_now + 3"
    by code_simp+
  from r obtain bs where
    bs: "generate_batches demo_uuid friday_now (replicate 25 ''a'') ''s'' ''b'' []
           demo_settings = Inr bs"
    by (cases "generate_batches demo_uuid friday_now (replicate 25 ''a'') ''s'' ''b'' []
                 demo_settings") auto
  with n have ne: "bs \<noteq> []" by simp
  have w: "\<not> working_days_only demo_settings"
    and i: "0 \<le> batch_interval_minutes demo_settings"
    by (simp_all add: demo_settings_def)
  from first_scheduled_day_is_weekday [OF bs ne] r n w i f a o bs show ?thesis
    by (auto simp: list_all_iff)
qed

section \<open>Working days only: a batch on a Saturday\<close>

text \<open>
  Claim C7 says that with \<open>working_days_only\<close> no batch is scheduled on a Saturday or
  Sunday. The planner skips a weekend day only when it starts a day; the batches of one
  day are then spaced by \<open>batch_interval_minutes\<close> from \<open>start_time\<close> with no check
  of the date they reach. Planned on a Thursday for ten recipients, with
  \<open>start_time = "23:58"\<close>, an interval of 5 minutes and two batches of five a day,
  the first batch is scheduled on Friday (weekday 4) at 23:58 and the second on
  Saturday (weekday 5) at 00:03.
\<close>

theorem working_days_only_batch_on_saturday:
  "working_days_only weekend_settings
   \<and> map (\<lambda>batch. (weekday (scheduled_time batch), length (emails batch)))
        (projr (generate_batches demo_uuid thursday_now
           (replicate 10 ''a'') ''s'' ''b'' [] weekend_settings)) = [(4, 5), (5, 5)]"
  by code_simp


section \<open>Creating a schedule without recipients\<close>

text \<open>
  Claim C8. \<open>create_schedule\<close> with an empty recipient list returns a result with
  \<open>success = False\<close> and the message "No emails provided for scheduling", and the
  state of the manager is the state before the call: no current schedule is set, no
  batch is created, nothing is written to the schedule store.
\<close>

theorem create_schedule_rejects_empty_recipients:
  "fst (create_schedule cfg uuid now err_text save_ok [] subj bdy atts schedule_settings s)
     = \<lparr> success = False, message = ''No emails provided for scheduling'',
         total_batches = 0, total_days = 0, start_date = None, end_date = None,
         result_schedule_id = None \<rparr>
   \<and> snd (create_schedule cfg uuid now err_text save_ok [] subj bdy atts schedule_settings s)
     = s"
  by (simp add: create_schedule_def failure_result_def)

section \<open>Stopping a schedule\<close>

lemma cancel_fold_fields:
  "failed_batches (fold cancel_step rs st) = failed_batches st @ rs"
  "length (objects (fold cancel_step rs st)) = length (objects st)"
  "active_batches (fold cancel_step rs st) = active_batches st"
  "completed_batches (fold cancel_step rs st) = completed_batches st"
  "current_schedule (fold cancel_step rs st) = current_schedule st"
  "is_running (fold cancel_step rs st) = is_running st"
  by (induction rs arbitrary: st) (simp_all add: cancel_step_def)

lemma cancel_fold_objects:
  "objects (fold cancel_step rs st) ! r =
     (if r \<in> set rs \<and> r < length (objects st)
      then (objects st ! r)\<lparr> status := ''cancelled'' \<rparr> else objects st ! r)"
proof (induction rs arbitrary: st)
  case Nil
  show ?case by simp
next
  case (Cons a rs)
  have len: "length (objects (cancel_step a st)) = length (objects st)"
    by (simp add: cancel_step_def)
  have nth: "objects (cancel_step a st) ! q =
               (if q = a \<and> a < length (objects st)
                then (objects st ! q)\<lparr> status := ''cancelled'' \<rparr> else objects st ! q)" for q
    by (cases "a < length (objects st)")
       (auto simp: cancel_step_def nth_list_update list_update_beyond)
  show ?case
    by (auto simp: Cons.IH len nth)
qed


lemma stop_schedule_proceeds:
  assumes "is_running s" and "\<not> (scheduler_thread s \<and> thread_alive \<and> on_scheduler_thread)"
  shows "stop_schedule thread_alive on_scheduler_thread now s =
           (True, (fold cancel_step (active_batches s)
                     (s\<lparr> is_running := False, jobs := [],
                        current_schedule :=
                          map_option (\<lambda>sd. sd\<lparr> sd_status := ''stopped'',
                                                sd_stopped_time := Some now \<rparr>)
                            (current_schedule s) \<rparr>))\<lparr> active_batches := [] \<rparr>)"
  using assms by (simp add: stop_schedule_def Let_def)

lemma stop_schedule_True:
  assumes "stop_schedule thread_alive on_scheduler_thread now s = (True, s')"
  shows "is_running s" and "\<not> (scheduler_thread s \<and> thread_alive \<and> on_scheduler_thread)"
  using assms by (auto simp: stop_schedule_def Let_def split: if_splits)


text \<open>
  Claim C10. When \<open>stop_schedule\<close> succeeds, the batches it cancels, which are the
  active ones, are appended to \<open>failed_batches\<close> in order and the active list is
  emptied, so the snapshot of \<open>get_current_schedule_status\<close> counts them in
  \<open>failed_batches\<close> and reports no pending batch; the snapshot has no count of
  cancelled batches.
\<close>

theorem stop_appends_cancelled_to_failed:
  assumes stop: "stop_schedule thread_alive on_scheduler_thread now s = (True, s')"
    and sched: "current_schedule s \<noteq> None"
    and refs: "\<forall>r\<in>set (active_batches s). r < length (objects s)"
  shows "failed_batches s' = failed_batches s @ active_batches s
       \<and> active_batches s' = []
       \<and> (\<forall>r\<in>set (active_batches s). status (objects s' ! r) = ''cancelled'')
       \<and> (\<exists>snap. get_current_schedule_status s' = Some snap
              \<and> snap_failed_batches snap
                  = length (failed_batches s) + length (active_batches s)
              \<and> snap_pending_batches snap = 0)"
proof -
  from stop_schedule_proceeds [OF stop_schedule_True [OF stop], of now] stop
  have s': "s' = (fold cancel_step (active_batches s)
                     (s\<lparr> is_running := False, jobs := [],
                        current_schedule :=
                          map_option (\<lambda>sd. sd\<lparr> sd_status := ''stopped'',
                                                sd_stopped_time := Some now \<rparr>)
                            (current_schedule s) \<rparr>))\<lparr> active_batches := [] \<rparr>"
    by simp
  have f: "failed_batches s' = failed_batches s @ active_batches s"
    and a: "active_batches s' = []"
    by (simp_all add: s' cancel_fold_fields)
  have c: "\<forall>r\<in>set (active_batches s). status (objects s' ! r) = ''cancelled''"
    using refs by (simp add: s' cancel_fold_objects)
  from sched obtain sd where "current_schedule s = Some sd" by auto
  then have "current_schedule s' \<noteq> None"
    by (simp add: s' cancel_fold_fields)
  then obtain sd' where "current_schedule s' = Some sd'" by auto
  then have "\<exists>snap. get_current_schedule_status s' = Some snap
              \<and> snap_failed_batches snap
                  = length (failed_batches s) + length (active_batches s)
              \<and> snap_pending_batches snap = 0"
    by (simp add: get_current_schedule_status_def Let_def f a)
  with f a c show ?thesis by blast
qed

theorem stop_appends_cancelled_to_failed_witness:
  "stop_schedule True False demo_now demo_running
     = (True, snd (stop_schedule True False demo_now demo_running))
   \<and> current_schedule demo_running \<noteq> None
   \<and> list_all (\<lambda>r. r < length (objects demo_running)) (active_batches demo_running)
   \<and> active_batches demo_running = [0, 1, 2, 3, 4]
   \<and> failed_batches (snd (stop_schedule True False demo_now demo_running))
       = failed_batches demo_running @ active_batches demo_running
   \<and> active_batches (snd (stop_schedule True False demo_now demo_running)) = []
   \<and> list_all (\<lambda>r. status (objects (snd (stop_schedule True False demo_now demo_running)) ! r)
                    = ''cancelled'')
        (active_batches demo_running)
   \<and> (\<exists>snap. get_current_schedule_status (snd (stop_schedule True False demo_now demo_running))
                = Some snap
          \<and> snap_failed_batches snap
              = length (failed_batches demo_running) + length (active_batches demo_running)
          \<and> snap_pending_batches snap = 0)"
proof -
  have t: "fst (stop_schedule True False demo_now demo_running)"
    and c: "current_schedule demo_running \<noteq> None"
    and a: "active_batches demo_running = [0, 1, 2, 3, 4]"
    and l: "list_all (\<lambda>r. r < length (objects demo_running)) (active_batches demo_running)"
    by code_simp+
  from t have stop: "stop_schedule True False demo_now demo_running
     = (True, snd (stop_schedule True False demo_now demo_running))"
    by (cases "stop_schedule True False demo_now demo_running") simp
  have refs: "\<forall>r\<in>set (active_batches demo_running). r < length (objects demo_running)"
    using l by (simp add: list_all_iff)
  from stop_appends_cancelled_to_failed [OF stop c refs] stop c refs a
  show ?thesis by (simp add: list_all_iff)
qed





section \<open>Retrying a failed batch\<close>

lemma schedule_batch_fields:
  "objects (schedule_batch r s) = objects s"
  "active_batches (schedule_batch r s) = active_batches s"
  "failed_batches (schedule_batch r s) = failed_batches s"
  "completed_batches (schedule_batch r s) = completed_batches s"
  "current_schedule (schedule_batch r s) = current_schedule s"
  by (simp_all add: schedule_batch_def)


text \<open>
  Claim C5 says that the retry batch has the attempt count of the failed batch plus one,
  and that the delay comes from the schedule's own settings. In \<open>execute_batch\<close> the
  failure is counted in the batch before the retry is decided, and \<open>_schedule_retry\<close>
  copies that count; the decision and the delay are read from the configuration
  manager, not from the settings stored in the schedule. Below, the first batch of the
  running schedule has failed once: it is recorded with one attempt, the retry batch
  has one attempt too, not two, and it is scheduled 30 minutes later, the
  \<open>retry_delay_minutes\<close> of the configuration, while the schedule's own settings
  carry a \<open>retry_delay_hours\<close> of 1.
\<close>

theorem retry_attempt_count_counterexample:
  "retry_failed_emails demo_config
   \<and> status (objects demo_failed_once ! 0) = ''failed''
   \<and> attempts (objects demo_failed_once ! 0) = 1
   \<and> retry_attempts demo_config = 3
   \<and> \<not> isl (retry_if_enabled demo_config demo_now ''retry-1'' 0 demo_failed_once)
   \<and> length (objects (projr (retry_if_enabled demo_config demo_now ''retry-1'' 0
                                 demo_failed_once))) = 6
   \<and> attempts (objects (projr (retry_if_enabled demo_config demo_now ''retry-1'' 0
                                 demo_failed_once)) ! 5) = 1
   \<and> attempts (objects (projr (retry_if_enabled demo_config demo_now ''retry-1'' 0
                                 demo_failed_once)) ! 5)
       \<noteq> attempts (objects demo_failed_once ! 0) + 1
   \<and> scheduled_time (objects (projr (retry_if_enabled demo_config demo_now ''retry-1'' 0
                                       demo_failed_once)) ! 5)
       = demo_now + 30 * us_per_minute
   \<and> map_option (retry_delay_hours \<circ> sd_settings) (current_schedule demo_failed_once)
       = Some 1"
  by code_simp

text \<open>
  Claim C5, amended. Let \<open>b\<close> be a failed batch, its attempt count already counting
  the failure, and let the retry time be representable. If the configuration enables
  retries and \<open>b\<close> has fewer attempts than \<open>retry_attempts\<close>, the retry path creates
  one new pending batch and appends it to the active batches: it has the recipients,
  subject, body and attachments of \<open>b\<close>, the attempt count of \<open>b\<close>, the scheduled
  time \<open>now\<close> plus \<open>retry_delay_minutes\<close> of the configuration, and metadata that
  mark it as a retry of the batch with the identifier of \<open>b\<close>. If retries are disabled
  or \<open>b\<close> has more attempts than \<open>retry_attempts\<close>, nothing is created. The case of
  exactly \<open>retry_attempts\<close> attempts is the subject of claim C4.
\<close>

theorem retry_path_clones_failed_batch:
  assumes td: "timedelta_minutes (retry_delay_minutes cfg) = Inr d"
    and add: "dt_add now d = Inr retry_time"
  shows "(retry_failed_emails cfg \<and> attempts (objects s ! r) < retry_attempts cfg \<longrightarrow>
            (\<exists>nb s'. retry_if_enabled cfg now uid r s = Inr s'
               \<and> objects s' = objects s @ [nb]
               \<and> active_batches s' = active_batches s @ [length (objects s)]
               \<and> emails nb = emails (objects s ! r)
               \<and> subject nb = subject (objects s ! r)
               \<and> body nb = body (objects s ! r)
               \<and> attachments nb = attachments (objects s ! r)
               \<and> attempts nb = attempts (objects s ! r)
               \<and> scheduled_time nb = now + retry_delay_minutes cfg * us_per_minute
               \<and> status nb = ''pending''
               \<and> map_of (metadata nb) ''is_retry'' = Some (PyBool True)
               \<and> map_of (metadata nb) ''original_batch_id''
                   = Some (PyStr (batch_id (objects s ! r)))))
       \<and> (\<not> retry_failed_emails cfg \<or> retry_attempts cfg < attempts (objects s ! r) \<longrightarrow>
            retry_if_enabled cfg now uid r s = Inr s)"
proof -
  from td add have t: "retry_time = now + retry_delay_minutes cfg * us_per_minute"
    by (auto dest!: timedelta_minutes_Inr dt_add_Inr)
  show ?thesis
    by (auto simp: retry_if_enabled_def schedule_retry_def td add t Let_def
          schedule_batch_fields)
qed

theorem retry_path_clones_failed_batch_witness:
  "timedelta_minutes (retry_delay_minutes demo_config) = Inr (30 * us_per_minute)
   \<and> dt_add demo_now (30 * us_per_minute) = Inr (demo_now + 30 * us_per_minute)
   \<and> retry_failed_emails demo_config
   \<and> attempts (objects demo_failed_once ! 0) < retry_attempts demo_config
   \<and> (\<exists>nb s'. retry_if_enabled demo_config demo_now ''retry-1'' 0 demo_failed_once = Inr s'
          \<and> objects s' = objects demo_failed_once @ [nb]
          \<and> emails nb = emails (objects demo_failed_once ! 0)
          \<and> attempts nb = attempts (objects demo_failed_once ! 0)
          \<and> scheduled_time nb = demo_now + retry_delay_minutes demo_config * us_per_minute
          \<and> map_of (metadata nb) ''original_batch_id''
              = Some (PyStr (batch_id (objects demo_failed_once ! 0))))
   \<and> \<not> retry_failed_emails (demo_config\<lparr> retry_failed_emails := False \<rparr>)
   \<and> retry_if_enabled (demo_config\<lparr> retry_failed_emails := False \<rparr>) demo_now ''retry-1'' 0
         demo_failed_once = Inr demo_failed_once"
proof -
  have td: "timedelta_minutes (retry_delay_minutes demo_config) = Inr (30 * us_per_minute)"
    and add: "dt_add demo_now (30 * us_per_minute) = Inr (demo_now + 30 * us_per_minute)"
    and en: "retry_failed_emails demo_config"
    and lt: "attempts (objects demo_failed_once ! 0) < retry_attempts demo_config"
    by code_simp+
  have td': "timedelta_minutes (retry_delay_minutes (demo_config\<lparr> retry_failed_emails := False \<rparr>))
               = Inr (30 * us_per_minute)"
    and dis: "\<not> retry_failed_emails (demo_config\<lparr> retry_failed_emails := False \<rparr>)"
    by code_simp+
  from retry_path_clones_failed_batch [OF td add, of demo_failed_once 0 "''retry-1''"]
       retry_path_clones_failed_batch [OF td' add, of demo_failed_once 0 "''retry-1''"]
       td add en lt dis
  show ?thesis by auto
qed

section \<open>Exhausting the retries\<close>

text \<open>
  A failed dispatch changes the batch object and, when a retry is created, adds exactly
  one object; the other steps of \<open>execute_batch\<close> leave the objects alone.
\<close>

lemma objects_update_global_statistics [simp]:
  "objects (update_global_statistics s) = objects s"
  by (simp add: update_global_statistics_def Let_def split: option.splits)

lemma objects_update_schedule_status [simp]:
  "objects (update_schedule_status now s) = objects s"
  by (simp add: update_schedule_status_def Let_def split: option.splits)

lemma objects_remove_from_active [simp]:
  "objects (remove_from_active r s) = objects s"
  by (simp add: remove_from_active_def)

lemma objects_record_failure:
  "objects (record_failure result r s) =
     (objects s)[r := (objects s ! r)\<lparr> status := ''failed'',
                        error_message := Some (send_message result),
                        attempts := attempts (objects s ! r) + 1 \<rparr>]"
  by (simp add: record_failure_def)

lemma attempts_record_failure:
  "r < length (objects s) \<Longrightarrow>
     attempts (objects (record_failure result r s) ! r) = attempts (objects s ! r) + 1"
  by (simp add: record_failure_def)

lemma execute_batch_failure_no_retry:
  assumes f: "\<not> send_success result"
    and c: "\<not> (retry_failed_emails cfg \<and> attempts (objects s ! r) + 1 < retry_attempts cfg)"
    and r: "r < length (objects s)"
  shows "objects (execute_batch cfg now uid err_text (Inr result) r s) =
           (objects s)[r := (objects s ! r)\<lparr> status := ''failed'',
                        error_message := Some (send_message result),
                        attempts := attempts (objects s ! r) + 1 \<rparr>]"
proof -
  have "retry_if_enabled cfg now uid r (record_failure result r s)
          = Inr (record_failure result r s)"
    using c by (auto simp: retry_if_enabled_def attempts_record_failure [OF r])
  then show ?thesis
    using f by (simp add: execute_batch_def execute_batch_try_def objects_record_failure)
qed

lemma execute_batch_failure_retry:
  assumes f: "\<not> send_success result"
    and en: "retry_failed_emails cfg"
    and c: "attempts (objects s ! r) + 1 < retry_attempts cfg"
    and r: "r < length (objects s)"
    and td: "timedelta_minutes (retry_delay_minutes cfg) = Inr d"
    and add: "dt_add now d = Inr retry_time"
  shows "\<exists>nb. objects (execute_batch cfg now uid err_text (Inr result) r s) =
           (objects s)[r := (objects s ! r)\<lparr> status := ''failed'',
                        error_message := Some (send_message result),
                        attempts := attempts (objects s ! r) + 1 \<rparr>] @ [nb]
         \<and> attempts nb = attempts (objects s ! r) + 1 \<and> status nb = ''pending''"
proof -
  let ?s1 = "record_failure result r s"
  have "\<exists>s2 nb. retry_if_enabled cfg now uid r ?s1 = Inr s2
          \<and> objects s2 = objects ?s1 @ [nb]
          \<and> attempts nb = attempts (objects ?s1 ! r) \<and> status nb = ''pending''"
    using en c
    by (simp add: retry_if_enabled_def attempts_record_failure [OF r] schedule_retry_def
          td add Let_def schedule_batch_def)
  then obtain s2 nb where
    "retry_if_enabled cfg now uid r ?s1 = Inr s2" "objects s2 = objects ?s1 @ [nb]"
    "attempts nb = attempts (objects ?s1 ! r)" "status nb = ''pending''"
    by blast
  then show ?thesis
    using f r
    by (simp add: execute_batch_def execute_batch_try_def objects_record_failure)
qed

lemma fail_chain_count:
  assumes en: "retry_failed_emails cfg"
    and td: "timedelta_minutes (retry_delay_minutes cfg) = Inr d"
    and add: "dt_add now d = Inr retry_time"
  shows "r < length (objects s) \<Longrightarrow> n = nat (retry_attempts cfg - attempts (objects s ! r))
     \<Longrightarrow> max 1 n \<le> fuel
     \<Longrightarrow> map_option fst (fail_chain fuel cfg now uuid err_text msg r s) = Some (max 1 n)"
proof (induction fuel arbitrary: r s n)
  case 0
  then show ?case by simp
next
  case (Suc fuel)
  let ?res = "\<lparr> send_success = False, send_message = msg \<rparr>"
  let ?s' = "execute_batch cfg now (uuid (length (objects s))) err_text (Inr ?res) r s"
  show ?case
  proof (cases "attempts (objects s ! r) + 1 < retry_attempts cfg")
    case False
    then have "objects ?s' = (objects s)[r := (objects s ! r)\<lparr> status := ''failed'',
                        error_message := Some (send_message ?res),
                        attempts := attempts (objects s ! r) + 1 \<rparr>]"
      using Suc.prems(1) by (intro execute_batch_failure_no_retry) simp_all
    then have "length (objects ?s') = length (objects s)" by simp
    moreover from False Suc.prems(2) have "max 1 n = 1" by simp
    ultimately show ?thesis by (simp add: Let_def)
  next
    case True
    from execute_batch_failure_retry [OF _ en True Suc.prems(1) td add, of ?res]
    obtain nb where
      o: "objects ?s' = (objects s)[r := (objects s ! r)\<lparr> status := ''failed'',
                        error_message := Some (send_message ?res),
                        attempts := attempts (objects s ! r) + 1 \<rparr>] @ [nb]"
      and a: "attempts nb = attempts (objects s ! r) + 1"
      by auto
    have len: "length (objects ?s') = Suc (length (objects s))" by (simp add: o)
    have nth: "objects ?s' ! length (objects s) = nb" by (simp add: o nth_append)
    from True Suc.prems(2) have n2: "2 \<le> n" by simp
    define n' where "n' = nat (retry_attempts cfg - attempts (objects ?s' ! length (objects s)))"
    have n': "n = Suc n'" "1 \<le> n'"
      using True Suc.prems(2) by (simp_all add: n'_def nth a)
    have fuel: "max 1 n' \<le> fuel" using Suc.prems(3) n' by simp
    have "map_option fst (fail_chain fuel cfg now uuid err_text msg (length (objects s)) ?s')
            = Some (max 1 n')"
      by (rule Suc.IH [OF _ n'_def fuel]) (simp add: len)
    then obtain s'' where
      "fail_chain fuel cfg now uuid err_text msg (length (objects s)) ?s' = Some (max 1 n', s'')"
      by (cases "fail_chain fuel cfg now uuid err_text msg (length (objects s)) ?s'") auto
    then show ?thesis using n' by (simp add: Let_def len)
  qed
qed

text \<open>
  Claim C4 says that a batch is given up after \<open>max_retry_attempts + 1\<close> failed
  dispatches, the original one and \<open>max_retry_attempts\<close> retries. In the code the
  failure is counted before the test \<open>batch.attempts < retry_attempts\<close>, and the
  retry batch inherits the count. So, for every configuration with retries enabled and a
  representable retry time, a fresh batch whose every dispatch fails is dispatched
  \<open>retry_attempts\<close> times in total, and once when \<open>retry_attempts\<close> is below 1:
  the chain ends one dispatch earlier than the claim says.
\<close>

theorem retry_chain_count:
  assumes en: "retry_failed_emails cfg"
    and td: "timedelta_minutes (retry_delay_minutes cfg) = Inr d"
    and add: "dt_add now d = Inr retry_time"
    and r: "r < length (objects s)"
    and fresh: "attempts (objects s ! r) = 0"
    and fuel: "max 1 (nat (retry_attempts cfg)) \<le> fuel"
  shows "map_option fst (fail_chain fuel cfg now uuid err_text msg r s)
           = Some (max 1 (nat (retry_attempts cfg)))"
proof -
  have "max 1 (nat (retry_attempts cfg - attempts (objects s ! r))) \<le> fuel"
    using fuel fresh by simp
  from fail_chain_count [OF en td add r refl this] fresh show ?thesis
    by simp
qed

text \<open>
  With the default \<open>retry_attempts = 3\<close> the first batch of the running schedule is
  dispatched three times, the original and two retries: the three batches end as failed
  with 1, 2 and 3 attempts and no retry batch is pending. With \<open>retry_attempts = 1\<close>,
  the least value the settings dialog offers, the batch fails once and is never retried.
\<close>

theorem retry_chain_count_witness:
  "retry_failed_emails demo_config \<and> retry_attempts demo_config = 3
   \<and> attempts (objects demo_running ! 0) = 0
   \<and> map_option fst (fail_chain 10 demo_config demo_now demo_uuid demo_err_text
                        ''rejected'' 0 demo_running) = Some 3
   \<and> map_option (\<lambda>(n, s). (map status (objects s), map attempts (objects s),
                             active_batches s, failed_batches s))
        (fail_chain 10 demo_config demo_now demo_uuid demo_err_text ''rejected'' 0
           demo_running)
       = Some ([''failed'', ''pending'', ''pending'', ''pending'', ''pending'',
                ''failed'', ''failed''],
               [1, 0, 0, 0, 0, 2, 3], [1, 2, 3, 4], [0, 5, 6])
   \<and> map_option (\<lambda>(n, s). (n, map status (objects s), active_batches s))
        (fail_chain 10 (demo_config\<lparr> retry_attempts := 1 \<rparr>) demo_now demo_uuid
           demo_err_text ''rejected'' 0 demo_running)
       = Some (1, [''failed'', ''pending'', ''pending'', ''pending'', ''pending''],
               [1, 2, 3, 4])"
proof -
  have en: "retry_failed_emails demo_config"
    and td: "timedelta_minutes (retry_delay_minutes demo_config) = Inr (30 * us_per_minute)"
    and add: "dt_add demo_now (30 * us_per_minute) = Inr (demo_now + 30 * us_per_minute)"
    and r: "0 < length (objects demo_running)"
    and fresh: "attempts (objects demo_running ! 0) = 0"
    and m: "retry_attempts demo_config = 3"
    by code_simp+
  have fuel: "max 1 (nat (retry_attempts demo_config)) \<le> 10"
    by (simp add: m)
  have rest: "map_option (\<lambda>(n, s). (map status (objects s), map attempts (objects s),
                             active_batches s, failed_batches s))
        (fail_chain 10 demo_config demo_now demo_uuid demo_err_text ''rejected'' 0
           demo_running)
       = Some ([''failed'', ''pending'', ''pending'', ''pending'', ''pending'',
                ''failed'', ''failed''],
               [1, 0, 0, 0, 0, 2, 3], [1, 2, 3, 4], [0, 5, 6])"
    "map_option (\<lambda>(n, s). (n, map status (objects s), active_batches s))
        (fail_chain 10 (demo_config\<lparr> retry_attempts := 1 \<rparr>) demo_now demo_uuid
           demo_err_text ''rejected'' 0 demo_running)
       = Some (1, [''failed'', ''pending'', ''pending'', ''pending'', ''pending''],
               [1, 2, 3, 4])"
    by code_simp+
  from retry_chain_count [OF en td add r fresh fuel, of demo_uuid demo_err_text "''rejected''"]
       en m fresh rest
  show ?thesis by simp
qed

end
